theory Spec2Isabelle
  imports Complex_Main "HOL-Library.Multiset"
begin

section \<open>Tuning curves of nelpy (\<^verbatim>\<open>nelpy/auxiliary/_tuningcurve.py\<close>)\<close>

text \<open>
  A shallow embedding of \<^verbatim>\<open>TuningCurve1D\<close> and \<^verbatim>\<open>DirectionalTuningCurve1D\<close>.
  Conventions of the model:
  \<^item> a numpy float is a \<^typ>\<open>real\<close>: rounding, NaN and infinities are not modelled, so
    every statement below is about exact arithmetic. No statement depends on what
    scipy's Gaussian filter computes: the filter is a parameter of the model;
  \<^item> a two-dimensional array is the list of its rows; a Python exception is a value
    \<open>Inl e\<close> of \<open>error + 'a\<close>;
  \<^item> \<^verbatim>\<open>n_extern\<close> and the entries of an index list are natural numbers;
  \<^item> two arrays that are combined entry by entry must have the same shape: numpy's
    broadcasting of an axis of length 1 against a longer one is modelled only where it
    is said so;
  \<^item> \<^verbatim>\<open>unit_tags\<close> and \<^verbatim>\<open>label\<close> are carried by no operation modelled here and are left out;
  \<^item> the external correlate provider is a function from time points to correlate values
    (the default transform \<^verbatim>\<open>_trans_func\<close>, which returns \<^verbatim>\<open>extern.asarray(at=at)\<close>).
\<close>

text \<open>
  The exceptions of the modelled code. \<open>FloatError\<close> is not a Python exception: it marks
  a float division by zero, whose IEEE result (an infinity or NaN) no real number stands
  for; the model stops there instead of computing with a made-up value.
\<close>

datatype error =
  ValueError | TypeError | NotImplementedError | IndexError | AttributeError | FloatError

type_synonym matrix = "real list list"

subsection \<open>The numpy functions the estimator calls\<close>

text \<open>
  \<^verbatim>\<open>np.linspace(start, stop, num)\<close>: \<open>num\<close> evenly spaced samples, the last one \<open>stop\<close>;
  a single sample is \<open>start\<close>.
\<close>

definition linspace :: "real \<Rightarrow> real \<Rightarrow> nat \<Rightarrow> real list" where
  "linspace start stop num =
     map (\<lambda>i. start + real i * ((stop - start) / real (num - 1))) [0..<num]"

text \<open>
  \<^verbatim>\<open>np.histogram(a, bins=edges)\<close> with an array of edges: edges that decrease somewhere
  are refused with a ValueError; every bin is closed on the left and open on the right,
  except the last one, which is closed on both sides; a sample outside
  \<open>[edges[0], edges[-1]]\<close> is in no bin.
\<close>

definition in_bin :: "real list \<Rightarrow> nat \<Rightarrow> real \<Rightarrow> bool" where
  "in_bin edges i x \<longleftrightarrow>
     edges ! i \<le> x \<and>
     (if Suc i = length edges - 1 then x \<le> edges ! Suc i else x < edges ! Suc i)"

definition histogram :: "real list \<Rightarrow> real list \<Rightarrow> error + nat list" where
  "histogram a edges =
     (if sorted edges
      then Inr (map (\<lambda>i. length (filter (in_bin edges i) a)) [0..<length edges - 1])
      else Inl ValueError)"

text \<open>
  \<^verbatim>\<open>np.searchsorted(a, v, side='left')\<close> on a non-decreasing array: the number of
  entries below \<open>v\<close>.
\<close>

definition searchsorted_left :: "real list \<Rightarrow> real \<Rightarrow> nat" where
  "searchsorted_left a v = length (filter (\<lambda>b. b < v) a)"

text \<open>
  \<^verbatim>\<open>np.digitize(x, bins, True)\<close>: for non-decreasing bins the index \<open>i\<close> with
  \<open>bins[i-1] < x \<le> bins[i]\<close>, which is \<^verbatim>\<open>searchsorted(bins, x, side='left')\<close>; for
  non-increasing bins \<^verbatim>\<open>len(bins) - searchsorted(bins[::-1], x, side='left')\<close>; a
  ValueError for bins that are not monotonic.
\<close>

definition digitize :: "real list \<Rightarrow> real list \<Rightarrow> error + nat list" where
  "digitize xs bins =
     (if sorted bins then Inr (map (searchsorted_left bins) xs)
      else if sorted (rev bins)
      then Inr (map (\<lambda>x. length bins - searchsorted_left (rev bins) x) xs)
      else Inl ValueError)"

subsection \<open>The binned spike train and the correlate\<close>

text \<open>
  What the estimator reads of its two providers: the unit ids and labels, the matrix of
  spike counts (one row per unit, one column per time bin), the bin duration \<^verbatim>\<open>ds\<close> and
  the centers of the time bins.
\<close>

record binned_spike_train =
  bst_unit_ids :: "int list"
  bst_unit_labels :: "string list"
  bst_data :: matrix
  bst_ds :: real
  bst_bin_centers :: "real list"

definition trans_func :: "(real \<Rightarrow> real) \<Rightarrow> real list \<Rightarrow> real list" where
  "trans_func extern ts = map extern ts"

subsection \<open>Occupancy and ratemap\<close>

text \<open>\<^verbatim>\<open>n_bins\<close> is \<^verbatim>\<open>len(self.bins) - 1\<close>; the edges are never empty (they come from
  \<^verbatim>\<open>np.linspace\<close> with \<^verbatim>\<open>n_extern + 1\<close> samples).\<close>

definition n_bins_of :: "real list \<Rightarrow> nat" where
  "n_bins_of bins = length bins - 1"

definition compute_occupancy :: "real list \<Rightarrow> real list \<Rightarrow> error + nat list" where
  "compute_occupancy bins ext = histogram ext bins"

text \<open>\<^verbatim>\<open>data[:, tt]\<close>: the column of a time bin, an IndexError beyond the last column.\<close>

definition column :: "matrix \<Rightarrow> nat \<Rightarrow> error + real list" where
  "column d tt =
     (if list_all (\<lambda>row. tt < length row) d then Inr (map (\<lambda>row. row ! tt) d)
      else Inl IndexError)"

text \<open>Python's index arithmetic: a negative index counts from the end.\<close>

definition py_index :: "nat \<Rightarrow> int \<Rightarrow> error + nat" where
  "py_index n j =
     (let k = (if j < 0 then j + int n else j)
      in if 0 \<le> k \<and> k < int n then Inr (nat k) else Inl IndexError)"

text \<open>
  \<^verbatim>\<open>ratemap[:, j] += v\<close> on a ratemap of \<open>nb\<close> columns: the column index is resolved as
  Python does, and \<open>v\<close> must have one entry per row (or a single entry, which numpy
  broadcasts to every row).
\<close>

definition add_to_column :: "nat \<Rightarrow> matrix \<Rightarrow> int \<Rightarrow> real list \<Rightarrow> error + matrix" where
  "add_to_column nb rm j v =
     (case py_index nb j of
        Inl e \<Rightarrow> Inl e
      | Inr c \<Rightarrow>
          if length v = length rm
          then Inr (map (\<lambda>(row, x). row[c := row ! c + x]) (zip rm v))
          else if length v = 1
          then Inr (map (\<lambda>row. row[c := row ! c + v ! 0]) rm)
          else Inl ValueError)"

text \<open>
  The loop \<^verbatim>\<open>for tt, bidx in enumerate(ext_bin_idx): ratemap[:,bidx-1] += data[:,tt]\<close>,
  with \<open>tt\<close> the position reached so far, and \<^verbatim>\<open>_compute_ratemap\<close> around it: the
  digitized indices, the check that none is \<^verbatim>\<open>n_bins\<close> or more, the loop over the
  indices below \<^verbatim>\<open>n_bins\<close> from a ratemap of zeros, and the division by \<^verbatim>\<open>ds\<close>.
\<close>

fun accumulate :: "nat \<Rightarrow> matrix \<Rightarrow> nat \<Rightarrow> nat list \<Rightarrow> matrix \<Rightarrow> error + matrix" where
  "accumulate nb d tt [] rm = Inr rm"
| "accumulate nb d tt (bidx # rest) rm =
     (case column d tt of
        Inl e \<Rightarrow> Inl e
      | Inr v \<Rightarrow>
          (case add_to_column nb rm (int bidx - 1) v of
             Inl e \<Rightarrow> Inl e
           | Inr rm' \<Rightarrow> accumulate nb d (Suc tt) rest rm'))"

definition compute_ratemap ::
  "real list \<Rightarrow> nat \<Rightarrow> binned_spike_train \<Rightarrow> real list \<Rightarrow> error + matrix" where
  "compute_ratemap bins n_units bst ext =
     (case digitize ext bins of
        Inl e \<Rightarrow> Inl e
      | Inr ext_bin_idx \<Rightarrow>
          if length (filter (\<lambda>i. i \<ge> n_bins_of bins) ext_bin_idx) > 0 then Inl ValueError
          else
            (case accumulate (n_bins_of bins) (bst_data bst) 0
                    (filter (\<lambda>i. i < n_bins_of bins) ext_bin_idx)
                    (replicate n_units (replicate (n_bins_of bins) 0)) of
               Inl e \<Rightarrow> Inl e
             | Inr ratemap \<Rightarrow>
                 if bst_ds bst = 0 then Inl FloatError
                 else Inr (map (map (\<lambda>x. x / bst_ds bst)) ratemap)))"

text \<open>
  The column that the loop adds a time bin to when its digitized index is \<open>bidx\<close>:
  \<^verbatim>\<open>bidx - 1\<close>, and for index 0 the column \<open>-1\<close>, which is the last one.
\<close>

definition column_of :: "nat \<Rightarrow> nat \<Rightarrow> nat" where
  "column_of nb bidx = (if bidx = 0 then nb - 1 else bidx - 1)"

text \<open>
  \<^verbatim>\<open>_normalize_firing_rate_by_occupancy\<close>: the occupancy is tiled once per unit, its
  zeros are replaced by 1, and the ratemap is divided by it entry by entry. Both arrays
  must have the shape (n_units, n_bins), as they have in the constructor, which builds
  both from the same bins and the same unit list.
\<close>

definition normalize_firing_rate_by_occupancy ::
  "nat \<Rightarrow> nat list \<Rightarrow> matrix \<Rightarrow> error + matrix" where
  "normalize_firing_rate_by_occupancy n_units occupancy ratemap =
     (let denom = replicate n_units (map (\<lambda>c. if c = 0 then 1 else real c) occupancy)
      in if length ratemap = n_units \<and> list_all (\<lambda>row. length row = length occupancy) ratemap
         then Inr (map (\<lambda>(row, drow). map (\<lambda>(x, y). x / y) (zip row drow)) (zip ratemap denom))
         else Inl ValueError)"

text \<open>\<^verbatim>\<open>ratemap[ratemap < minbgrate] = minbgrate\<close>.\<close>

definition enforce_minbgrate :: "real \<Rightarrow> matrix \<Rightarrow> matrix" where
  "enforce_minbgrate minbgrate ratemap =
     map (map (\<lambda>x. if x < minbgrate then minbgrate else x)) ratemap"

subsection \<open>Gaussian smoothing\<close>

text \<open>
  \<^verbatim>\<open>scipy.ndimage.filters.gaussian_filter(input, sigma=..., truncate=...)\<close> is a
  function of the scipy library, not of this repository, and it computes in floating
  point: its weights are rounded, and so is every sum it forms. It is a parameter of the
  model, named \<open>gaussian_filter\<close> wherever it is passed, from the pair of sigmas (one per
  axis), the truncation and the input array to the output array or an error; nothing is
  assumed of what it returns.
\<close>

type_synonym ndimage_filter = "real \<times> real \<Rightarrow> real \<Rightarrow> matrix \<Rightarrow> error + matrix"

text \<open>
  \<^verbatim>\<open>TuningCurve1D.smooth\<close> on the ratemap: sigma is given in units of the correlate and
  converted to bins; several units are smoothed along the bins only
  (\<^verbatim>\<open>sigma=(0, sigma)\<close>), a curve of at most one unit gets the scalar sigma, which scipy
  applies to both axes. Without a bin, or with bins of width zero, the conversion is a
  float division by zero: numpy warns and goes on with an infinite or NaN sigma, the
  model stops with \<open>FloatError\<close>.
\<close>

definition smooth ::
  "ndimage_filter \<Rightarrow> real list \<Rightarrow> nat \<Rightarrow> real option \<Rightarrow> real option \<Rightarrow> matrix \<Rightarrow>
   error + matrix" where
  "smooth gaussian_filter bins n_units sigma bw ratemap =
     (let sigma = (case sigma of None \<Rightarrow> 0.1 | Some s \<Rightarrow> s);
          bw = (case bw of None \<Rightarrow> 4 | Some b \<Rightarrow> b)
      in if n_bins_of bins = 0 \<or> last bins - hd bins = 0 then Inl FloatError
         else
           (let ds = (last bins - hd bins) / real (n_bins_of bins);
                sigma = sigma / ds
            in if n_units > 1 then gaussian_filter (0, sigma) bw ratemap
               else gaussian_filter (sigma, sigma) bw ratemap))"

subsection \<open>The estimation pipeline\<close>

text \<open>
  The steps that \<^verbatim>\<open>TuningCurve1D.__init__\<close> runs once and
  \<^verbatim>\<open>DirectionalTuningCurve1D.__init__\<close> three times, in the source's order: occupancy,
  ratemap, normalisation by occupancy, the floor \<^verbatim>\<open>minbgrate\<close>, and smoothing when
  \<^verbatim>\<open>sigma\<close> is given and positive. \<^verbatim>\<open>self.trans_func\<close> is only set when no
  \<^verbatim>\<open>transform_func\<close> is passed, so a passed one ends in an AttributeError at the first
  use.
\<close>

type_synonym transform = "(real \<Rightarrow> real) \<Rightarrow> real list \<Rightarrow> real list"

definition estimate ::
  "ndimage_filter \<Rightarrow> real list \<Rightarrow> nat \<Rightarrow> binned_spike_train \<Rightarrow> (real \<Rightarrow> real) \<Rightarrow>
   transform option \<Rightarrow> real \<Rightarrow> real option \<Rightarrow> real option \<Rightarrow> error + (nat list \<times> matrix)" where
  "estimate gaussian_filter bins n_units bst extern transform_func minbgrate sigma bw =
     (case transform_func of
        Some f \<Rightarrow> Inl AttributeError
      | None \<Rightarrow>
          (let ext = trans_func extern (bst_bin_centers bst)
           in case compute_occupancy bins ext of
                Inl e \<Rightarrow> Inl e
              | Inr occupancy \<Rightarrow>
                  (case compute_ratemap bins n_units bst ext of
                     Inl e \<Rightarrow> Inl e
                   | Inr raw \<Rightarrow>
                       (case normalize_firing_rate_by_occupancy n_units occupancy raw of
                          Inl e \<Rightarrow> Inl e
                        | Inr normalized \<Rightarrow>
                            (let floored = enforce_minbgrate minbgrate normalized
                             in case sigma of
                                  None \<Rightarrow> Inr (occupancy, floored)
                                | Some s \<Rightarrow>
                                    if s > 0
                                    then (case smooth gaussian_filter bins n_units (Some s) bw
                                                 floored of
                                            Inl e \<Rightarrow> Inl e
                                          | Inr smoothed \<Rightarrow> Inr (occupancy, smoothed))
                                    else Inr (occupancy, floored))))))"

subsection \<open>\<^verbatim>\<open>TuningCurve1D\<close>\<close>

record tuning_curve =
  bins :: "real list"
  ratemap :: matrix
  occupancy :: "nat list"
  unit_ids :: "int list"
  unit_labels :: "string list"

text \<open>An object built with \<^verbatim>\<open>empty=True\<close> has every attribute set to \<^verbatim>\<open>None\<close>.\<close>

datatype 'a built = Empty | Built 'a

text \<open>The keyword arguments of the constructor; the signature's defaults are
  \<^verbatim>\<open>extmin=0\<close>, \<^verbatim>\<open>extmax=1\<close>, \<^verbatim>\<open>empty=False\<close> and \<^verbatim>\<open>None\<close> elsewhere.\<close>

record kwargs =
  sigma :: "real option"
  bw :: "real option"
  n_extern :: "nat option"
  transform_func :: "transform option"
  minbgrate :: "real option"
  extmin :: "real option"
  extmax :: "real option"
  empty_arg :: bool

definition default_kwargs :: kwargs where
  "default_kwargs =
     \<lparr>sigma = None, bw = None, n_extern = None, transform_func = None, minbgrate = None,
      extmin = Some 0, extmax = Some 1, empty_arg = False\<rparr>"

definition n_bins :: "'a tuning_curve_scheme \<Rightarrow> nat" where
  "n_bins self = n_bins_of (bins self)"

definition n_units :: "'a tuning_curve_scheme \<Rightarrow> nat" where
  "n_units self = length (unit_ids self)"

definition TuningCurve1D_init ::
  "ndimage_filter \<Rightarrow> binned_spike_train \<Rightarrow> (real \<Rightarrow> real) \<Rightarrow> kwargs \<Rightarrow>
   error + tuning_curve built" where
  "TuningCurve1D_init gaussian_filter bst extern kw =
     (if empty_arg kw then Inr Empty
      else
        (let mbg = (case minbgrate kw of None \<Rightarrow> 0.01 | Some m \<Rightarrow> m)
         in case n_extern kw of
              None \<Rightarrow> Inl NotImplementedError
            | Some n \<Rightarrow>
                (case (extmin kw, extmax kw) of
                   (Some lo, Some hi) \<Rightarrow>
                     (let bs = linspace lo hi (n + 1)
                      in case estimate gaussian_filter bs (length (bst_unit_ids bst)) bst
                                extern (transform_func kw) mbg (sigma kw) (bw kw) of
                           Inl e \<Rightarrow> Inl e
                         | Inr (occ, rm) \<Rightarrow>
                             Inr (Built \<lparr>bins = bs, ratemap = rm, occupancy = occ,
                                         unit_ids = bst_unit_ids bst,
                                         unit_labels = bst_unit_labels bst\<rparr>))
                 | _ \<Rightarrow> Inl NotImplementedError)))"

text \<open>
  The call \<^verbatim>\<open>TuningCurve1D(...)\<close>: \<^verbatim>\<open>bst\<close> and \<^verbatim>\<open>extern\<close> are positional parameters
  without a default, so Python raises a TypeError before the body runs when one of them
  is not passed (\<open>None\<close> here stands for an argument that is absent from the call).
\<close>

definition TuningCurve1D_new ::
  "ndimage_filter \<Rightarrow> binned_spike_train option \<Rightarrow> (real \<Rightarrow> real) option \<Rightarrow> kwargs \<Rightarrow>
   error + tuning_curve built" where
  "TuningCurve1D_new gaussian_filter bst extern kw =
     (case (bst, extern) of
        (Some b, Some x) \<Rightarrow> TuningCurve1D_init gaussian_filter b x kw
      | _ \<Rightarrow> Inl TypeError)"

subsection \<open>Normalisation by the peak rate, and the operator \<^verbatim>\<open>+\<close>\<close>

text \<open>
  A method that may work in place returns two curves: the receiver as the call leaves it,
  and the curve the method returns.

  \<^verbatim>\<open>normalize\<close>: with more than one unit every row is divided by its own maximum; otherwise
  the whole ratemap is divided by its overall maximum. \<^verbatim>\<open>np.max\<close> raises a ValueError on
  an array without entries, and the divisor is tiled to \<^verbatim>\<open>n_bins\<close> columns, which the
  rows of the ratemap must have. A maximum of zero is a float division by zero.
\<close>

definition normalize ::
  "tuning_curve \<Rightarrow> bool \<Rightarrow> error + (tuning_curve \<times> tuning_curve)" where
  "normalize self inplace =
     (case
        (if n_units self > 1
         then
           (if list_ex (\<lambda>row. row = []) (ratemap self) then Inl ValueError
            else
              (let per_unit_max = map (\<lambda>row. Max (set row)) (ratemap self)
               in if list_ex (\<lambda>row. length row \<noteq> n_bins self) (ratemap self) then Inl ValueError
                  else if list_ex (\<lambda>m. m = 0) per_unit_max then Inl FloatError
                  else Inr (map (\<lambda>(row, m). map (\<lambda>x. x / m) row)
                              (zip (ratemap self) per_unit_max))))
         else
           (if concat (ratemap self) = [] then Inl ValueError
            else
              (let per_unit_max = Max (set (concat (ratemap self)))
               in if list_ex (\<lambda>row. length row \<noteq> n_bins self) (ratemap self) then Inl ValueError
                  else if per_unit_max = 0 then Inl FloatError
                  else Inr (map (map (\<lambda>x. x / per_unit_max)) (ratemap self))))) of
        Inl e \<Rightarrow> Inl e
      | Inr new_ratemap \<Rightarrow>
          (let out = self\<lparr>ratemap := new_ratemap\<rparr>
           in Inr (if inplace then out else self, out)))"

text \<open>The right operand of an operator: a number, a tuning curve, or anything else.\<close>

datatype operand = Number real | Curve tuning_curve | OtherObject

text \<open>\<^verbatim>\<open>__add__\<close> works on a shallow copy whose ratemap is rebound to a new array.\<close>

definition add :: "tuning_curve \<Rightarrow> operand \<Rightarrow> error + (tuning_curve \<times> tuning_curve)" where
  "add self other =
     (case other of
        Number x \<Rightarrow> Inr (self, self\<lparr>ratemap := map (map (\<lambda>v. v + x)) (ratemap self)\<rparr>)
      | Curve c \<Rightarrow> Inl NotImplementedError
      | OtherObject \<Rightarrow> Inl TypeError)"

subsection \<open>Subsetting by unit ids\<close>

text \<open>\<^verbatim>\<open>list.index\<close>: the first position of a value, a ValueError when it is absent.\<close>

primrec list_index :: "'a list \<Rightarrow> 'a \<Rightarrow> error + nat" where
  "list_index [] x = Inl ValueError"
| "list_index (y # ys) x =
     (if y = x then Inr 0
      else (case list_index ys x of Inl e \<Rightarrow> Inl e | Inr i \<Rightarrow> Inr (Suc i)))"

datatype warning = UnitNotFound int | NoUnitsRemaining

text \<open>The loop of \<^verbatim>\<open>_unit_subset\<close>: the warnings it issues and the positions it collects,
  both in the order of the requested list.\<close>

primrec subset_positions :: "int list \<Rightarrow> int list \<Rightarrow> warning list \<times> nat list" where
  "subset_positions ids [] = ([], [])"
| "subset_positions ids (unit # rest) =
     (case list_index ids unit of
        Inl e \<Rightarrow> (UnitNotFound unit # fst (subset_positions ids rest),
                  snd (subset_positions ids rest))
      | Inr i \<Rightarrow> (fst (subset_positions ids rest), i # snd (subset_positions ids rest)))"

text \<open>Indexing an array with a list of positions (\<^verbatim>\<open>a[idx]\<close>, \<^verbatim>\<open>a[idx,:]\<close>).\<close>

definition take_rows :: "'a list \<Rightarrow> nat list \<Rightarrow> error + 'a list" where
  "take_rows xs idx =
     (if list_all (\<lambda>i. i < length xs) idx then Inr (map (\<lambda>i. xs ! i) idx)
      else Inl IndexError)"

text \<open>
  \<^verbatim>\<open>_unit_subset\<close> returns the warnings issued and the result. With no unit left it
  warns and evaluates \<^verbatim>\<open>TuningCurve1D(empty=True)\<close>, a call without \<^verbatim>\<open>bst\<close> and
  \<^verbatim>\<open>extern\<close>. The filter is only handed on to that constructor call.
\<close>

definition unit_subset ::
  "ndimage_filter \<Rightarrow> tuning_curve \<Rightarrow> int list \<Rightarrow>
   warning list \<times> (error + tuning_curve built)" where
  "unit_subset gaussian_filter self unit_list =
     (let ws = fst (subset_positions (unit_ids self) unit_list);
          unit_subset_ids = snd (subset_positions (unit_ids self) unit_list)
      in case take_rows (unit_ids self) unit_subset_ids of
           Inl e \<Rightarrow> (ws, Inl e)
         | Inr new_unit_ids \<Rightarrow>
             (case take_rows (unit_labels self) unit_subset_ids of
                Inl e \<Rightarrow> (ws, Inl e)
              | Inr new_unit_labels \<Rightarrow>
                  if length unit_subset_ids = 0
                  then (ws @ [NoUnitsRemaining],
                        TuningCurve1D_new gaussian_filter None None
                          (default_kwargs\<lparr>empty_arg := True\<rparr>))
                  else
                    (case take_rows (ratemap self) unit_subset_ids of
                       Inl e \<Rightarrow> (ws, Inl e)
                     | Inr new_ratemap \<Rightarrow>
                         (ws, Inr (Built (self\<lparr>unit_ids := new_unit_ids,
                                                unit_labels := new_unit_labels,
                                                ratemap := new_ratemap\<rparr>))))))"

subsection \<open>Reordering units\<close>

text \<open>
  Modelled from the spec: \<^verbatim>\<open>utils.swap_rows\<close> is not among the sources; the spec has
  reordering permute the rows of the ratemap in lockstep with the unit ids and labels, so
  \<^verbatim>\<open>swap_rows(arr, frm, to)\<close> exchanges the rows \<open>frm\<close> and \<open>to\<close> of \<open>arr\<close>, as the two
  tuple assignments next to it exchange the entries of the lists.
\<close>

definition swap :: "'a list \<Rightarrow> nat \<Rightarrow> nat \<Rightarrow> error + 'a list" where
  "swap xs frm to =
     (if frm < length xs \<and> to < length xs then Inr (xs[frm := xs ! to, to := xs ! frm])
      else Inl IndexError)"

text \<open>The loop \<^verbatim>\<open>for oi, ni in enumerate(neworder)\<close>, shared by the two reordering
  methods; \<open>oi\<close> is the position reached.\<close>

fun reorder_loop ::
  "nat \<Rightarrow> nat list \<Rightarrow> nat list \<Rightarrow> tuning_curve \<Rightarrow> error + tuning_curve" where
  "reorder_loop oi [] oldorder out = Inr out"
| "reorder_loop oi (ni # rest) oldorder out =
     (case list_index oldorder ni of
        Inl e \<Rightarrow> Inl e
      | Inr frm \<Rightarrow>
          (case swap (ratemap out) frm oi of
             Inl e \<Rightarrow> Inl e
           | Inr rm \<Rightarrow>
               (case swap (unit_ids out) frm oi of
                  Inl e \<Rightarrow> Inl e
                | Inr ids \<Rightarrow>
                    (case swap (unit_labels out) frm oi of
                       Inl e \<Rightarrow> Inl e
                     | Inr labels \<Rightarrow>
                         (case swap oldorder frm oi of
                            Inl e \<Rightarrow> Inl e
                          | Inr oldorder' \<Rightarrow>
                              reorder_loop (Suc oi) rest oldorder'
                                (out\<lparr>ratemap := rm, unit_ids := ids,
                                     unit_labels := labels\<rparr>))))))"

text \<open>
  Both methods are modelled for an explicit \<^verbatim>\<open>neworder\<close>; the default (the order of the
  peak firing bins, from \<^verbatim>\<open>np.argsort\<close>) is not. With \<^verbatim>\<open>inplace=False\<close> the loop runs
  on a deep copy.
\<close>

definition reorder_units_by_idx ::
  "tuning_curve \<Rightarrow> nat list \<Rightarrow> bool \<Rightarrow> error + (tuning_curve \<times> tuning_curve)" where
  "reorder_units_by_idx self neworder inplace =
     (case reorder_loop 0 neworder [0..<length neworder] self of
        Inl e \<Rightarrow> Inl e
      | Inr out \<Rightarrow> Inr (if inplace then out else self, out))"

primrec index_all :: "'a list \<Rightarrow> 'a list \<Rightarrow> error + nat list" where
  "index_all ids [] = Inr []"
| "index_all ids (x # xs) =
     (case list_index ids x of
        Inl e \<Rightarrow> Inl e
      | Inr i \<Rightarrow> (case index_all ids xs of Inl e \<Rightarrow> Inl e | Inr is \<Rightarrow> Inr (i # is)))"

definition reorder_units_by_ids ::
  "tuning_curve \<Rightarrow> int list \<Rightarrow> bool \<Rightarrow> error + (tuning_curve \<times> tuning_curve)" where
  "reorder_units_by_ids self neworder inplace =
     (case index_all (unit_ids self) neworder of
        Inl e \<Rightarrow> Inl e
      | Inr neworder' \<Rightarrow>
          (case reorder_loop 0 neworder' [0..<length neworder'] self of
             Inl e \<Rightarrow> Inl e
           | Inr out \<Rightarrow> Inr (if inplace then out else self, out)))"

subsection \<open>\<^verbatim>\<open>DirectionalTuningCurve1D\<close>\<close>

record directional_tuning_curve = tuning_curve +
  min_peakfiringrate :: real
  max_avgfiringrate :: real
  unimodal :: bool
  unit_ids_l2r :: "int list"
  unit_ids_r2l :: "int list"

record directional_kwargs = kwargs +
  min_peakfiringrate_arg :: "real option"
  max_avgfiringrate_arg :: "real option"
  unimodal_arg :: bool

text \<open>
  \<^verbatim>\<open>np.argwhere(mask).squeeze().tolist()\<close> on a mask with one entry per unit: the
  positions where the mask holds, as a list; but \<^verbatim>\<open>squeeze\<close> turns a single position
  into a zero-dimensional array and \<^verbatim>\<open>tolist\<close> then gives a bare integer.
\<close>

datatype positions = Scalar nat | Positions "nat list"

definition argwhere_squeeze_tolist :: "bool list \<Rightarrow> positions" where
  "argwhere_squeeze_tolist msk =
     (case filter (\<lambda>i. msk ! i) [0..<length msk] of
        [i] \<Rightarrow> Scalar i
      | idx \<Rightarrow> Positions idx)"

text \<open>
  \<^verbatim>\<open>set(np.asanyarray(unit_ids)[idx])\<close>: a list of positions selects an array of ids;
  a bare integer selects a numpy scalar, and \<^verbatim>\<open>set\<close> of a scalar raises a TypeError
  (it is not iterable).
\<close>

definition set_of_selected :: "int list \<Rightarrow> positions \<Rightarrow> error + int set" where
  "set_of_selected ids idx =
     (case idx of
        Scalar i \<Rightarrow> if i < length ids then Inl TypeError else Inl IndexError
      | Positions is \<Rightarrow>
          (case take_rows ids is of Inl e \<Rightarrow> Inl e | Inr sel \<Rightarrow> Inr (set sel)))"

definition mean :: "real list \<Rightarrow> real" where
  "mean row = sum_list row / real (length row)"

text \<open>The two thresholds a unit must pass to be retained for a direction: its peak rate
  above \<open>min_peak\<close> and its mean rate below \<open>max_avg\<close>.\<close>

definition retained :: "real \<Rightarrow> real \<Rightarrow> real list \<Rightarrow> bool" where
  "retained min_peak max_avg row \<longleftrightarrow> Max (set row) > min_peak \<and> mean row < max_avg"

text \<open>
  \<^verbatim>\<open>restrict_units\<close>, with the attributes of \<open>self\<close> it reads as parameters and the
  ratemap always given, as the constructor calls it.
  \<^verbatim>\<open>ratemap.max(axis=1)\<close> raises a ValueError on rows without entries.
\<close>

definition restrict_units ::
  "int list \<Rightarrow> real \<Rightarrow> real \<Rightarrow> bool \<Rightarrow> matrix \<Rightarrow> error + int set" where
  "restrict_units ids min_peak max_avg unimod rm =
     (if list_ex (\<lambda>row. row = []) rm then Inl ValueError
      else
        (case set_of_selected ids
                (argwhere_squeeze_tolist (map (\<lambda>row. Max (set row) > min_peak) rm)) of
           Inl e \<Rightarrow> Inl e
         | Inr keep_peak \<Rightarrow>
             (case set_of_selected ids
                     (argwhere_squeeze_tolist (map (\<lambda>row. mean row < max_avg) rm)) of
                Inl e \<Rightarrow> Inl e
              | Inr keep_avg \<Rightarrow>
                  if unimod then Inl NotImplementedError
                  else Inr (keep_peak \<inter> keep_avg))))"

text \<open>
  The loops \<^verbatim>\<open>for unit_id in ...: self._ratemap[unit_idx, :] = src[unit_idx, :]\<close>. Source
  and target rows must have the same length.
\<close>

fun replace_rows :: "int list \<Rightarrow> matrix \<Rightarrow> int list \<Rightarrow> matrix \<Rightarrow> error + matrix" where
  "replace_rows ids src [] rm = Inr rm"
| "replace_rows ids src (unit_id # rest) rm =
     (case list_index ids unit_id of
        Inl e \<Rightarrow> Inl e
      | Inr unit_idx \<Rightarrow>
          if \<not> (unit_idx < length rm \<and> unit_idx < length src) then Inl IndexError
          else if length (src ! unit_idx) \<noteq> length (rm ! unit_idx) then Inl ValueError
          else replace_rows ids src rest (rm[unit_idx := src ! unit_idx]))"

text \<open>
  The constructor. Python leaves the order in which a set is listed unspecified; the
  model lists a set in ascending order, and no statement below depends on that order.
\<close>

definition DirectionalTuningCurve1D_init ::
  "ndimage_filter \<Rightarrow> binned_spike_train \<Rightarrow> binned_spike_train \<Rightarrow> binned_spike_train \<Rightarrow>
   (real \<Rightarrow> real) \<Rightarrow> directional_kwargs \<Rightarrow> error + directional_tuning_curve built" where
  "DirectionalTuningCurve1D_init gaussian_filter bst_l2r bst_r2l bst_combined extern kw =
     (if empty_arg kw then Inr Empty
      else
        (let min_peak = (case min_peakfiringrate_arg kw of None \<Rightarrow> 1.5 | Some m \<Rightarrow> m);
             max_avg = (case max_avgfiringrate_arg kw of None \<Rightarrow> 10 | Some m \<Rightarrow> m);
             mbg = (case minbgrate kw of None \<Rightarrow> 0.01 | Some m \<Rightarrow> m)
         in case n_extern kw of
              None \<Rightarrow> Inl NotImplementedError
            | Some n \<Rightarrow>
                (case (extmin kw, extmax kw) of
                   (Some lo, Some hi) \<Rightarrow>
                     (let bs = linspace lo hi (n + 1);
                          ids = bst_unit_ids bst_combined;
                          est = (\<lambda>bst. estimate gaussian_filter bs (length ids) bst extern
                                         (transform_func kw) mbg (sigma kw) (bw kw))
                      in case est bst_l2r of
                           Inl e \<Rightarrow> Inl e
                         | Inr (occ_l2r, ratemap_l2r) \<Rightarrow>
                        (case est bst_r2l of
                           Inl e \<Rightarrow> Inl e
                         | Inr (occ_r2l, ratemap_r2l) \<Rightarrow>
                        (case est bst_combined of
                           Inl e \<Rightarrow> Inl e
                         | Inr (occ, rm) \<Rightarrow>
                        (case restrict_units ids min_peak max_avg (unimodal_arg kw) ratemap_l2r of
                           Inl e \<Rightarrow> Inl e
                         | Inr l2r_unit_ids \<Rightarrow>
                        (case restrict_units ids min_peak max_avg (unimodal_arg kw) ratemap_r2l of
                           Inl e \<Rightarrow> Inl e
                         | Inr r2l_unit_ids \<Rightarrow>
                        (let common_unit_ids = sorted_list_of_set (r2l_unit_ids \<inter> l2r_unit_ids);
                             l2r_only_unit_ids =
                               sorted_list_of_set (l2r_unit_ids - set common_unit_ids);
                             r2l_only_unit_ids =
                               sorted_list_of_set (r2l_unit_ids - set common_unit_ids)
                         in case replace_rows ids ratemap_l2r l2r_only_unit_ids rm of
                              Inl e \<Rightarrow> Inl e
                            | Inr rm1 \<Rightarrow>
                           (case replace_rows ids ratemap_r2l r2l_only_unit_ids rm1 of
                              Inl e \<Rightarrow> Inl e
                            | Inr rm2 \<Rightarrow>
                                Inr (Built \<lparr>bins = bs, ratemap = rm2, occupancy = occ,
                                            unit_ids = ids,
                                            unit_labels = bst_unit_labels bst_combined,
                                            min_peakfiringrate = min_peak,
                                            max_avgfiringrate = max_avg,
                                            unimodal = unimodal_arg kw,
                                            unit_ids_l2r = l2r_only_unit_ids,
                                            unit_ids_r2l = r2l_only_unit_ids\<rparr>))))))))
                 | _ \<Rightarrow> Inl NotImplementedError)))"

section \<open>Example inputs\<close>

text \<open>A curve of two units over two bins, as a construction could leave it.\<close>

definition example_curve :: tuning_curve where
  "example_curve =
     \<lparr>bins = [0, 1 / 2, 1], ratemap = [[1, 2], [3, 4]], occupancy = [1, 0],
      unit_ids = [7, 9], unit_labels = [''a'', ''b'']\<rparr>"

text \<open>A curve of three units.\<close>

definition example_curve3 :: tuning_curve where
  "example_curve3 =
     \<lparr>bins = [0, 1 / 2, 1], ratemap = [[1, 2], [3, 4], [5, 6]], occupancy = [1, 0],
      unit_ids = [7, 9, 4], unit_labels = [''a'', ''b'', ''c'']\<rparr>"


text \<open>
  A binned spike train of two units over three time bins, and keyword arguments asking for
  two bins on \<open>[0, 1]\<close>.
\<close>

definition example_bst :: binned_spike_train where
  "example_bst =
     \<lparr>bst_unit_ids = [7, 9], bst_unit_labels = [''a'', ''b''],
      bst_data = [[3, 5, 4], [0, 2, 1]], bst_ds = 1, bst_bin_centers = [0, 1, 2]\<rparr>"

definition example_kwargs :: kwargs where
  "example_kwargs = default_kwargs\<lparr>n_extern := Some 2\<rparr>"


text \<open>
  Three binned spike trains of four units over the same three time bins, for the two
  directions and their union, with the default thresholds.
\<close>

definition example_bst_l2r :: binned_spike_train where
  "example_bst_l2r =
     \<lparr>bst_unit_ids = [7, 9, 4, 2], bst_unit_labels = [''a'', ''b'', ''c'', ''d''],
      bst_data = [[4, 0, 0], [4, 0, 0], [0, 0, 0], [0, 0, 0]], bst_ds = 1,
      bst_bin_centers = [0, 1, 2]\<rparr>"

definition example_bst_r2l :: binned_spike_train where
  "example_bst_r2l =
     \<lparr>bst_unit_ids = [7, 9, 4, 2], bst_unit_labels = [''a'', ''b'', ''c'', ''d''],
      bst_data = [[0, 0, 0], [4, 0, 0], [4, 0, 0], [0, 0, 0]], bst_ds = 1,
      bst_bin_centers = [0, 1, 2]\<rparr>"

definition example_bst_combined :: binned_spike_train where
  "example_bst_combined =
     \<lparr>bst_unit_ids = [7, 9, 4, 2], bst_unit_labels = [''a'', ''b'', ''c'', ''d''],
      bst_data = [[2, 0, 0], [2, 0, 0], [2, 0, 0], [0, 0, 0]], bst_ds = 1,
      bst_bin_centers = [0, 1, 2]\<rparr>"

definition example_directional_kwargs :: directional_kwargs where
  "example_directional_kwargs =
     \<lparr>sigma = None, bw = None, n_extern = Some 2, transform_func = None, minbgrate = None,
      extmin = Some 0, extmax = Some 1, empty_arg = False,
      min_peakfiringrate_arg = None, max_avgfiringrate_arg = None, unimodal_arg = False\<rparr>"

text \<open>
  Three binned spike trains of three units: unit \<open>7\<close> fires in the left-to-right pass
  only, unit \<open>9\<close> in both passes, unit \<open>4\<close> in neither.
\<close>

definition example_abc_l2r :: binned_spike_train where
  "example_abc_l2r =
     \<lparr>bst_unit_ids = [7, 9, 4], bst_unit_labels = [''a'', ''b'', ''c''],
      bst_data = [[4, 0, 0], [4, 0, 0], [0, 0, 0]], bst_ds = 1,
      bst_bin_centers = [0, 1, 2]\<rparr>"

definition example_abc_r2l :: binned_spike_train where
  "example_abc_r2l =
     \<lparr>bst_unit_ids = [7, 9, 4], bst_unit_labels = [''a'', ''b'', ''c''],
      bst_data = [[0, 0, 0], [4, 0, 0], [0, 0, 0]], bst_ds = 1,
      bst_bin_centers = [0, 1, 2]\<rparr>"

definition example_abc_combined :: binned_spike_train where
  "example_abc_combined =
     \<lparr>bst_unit_ids = [7, 9, 4], bst_unit_labels = [''a'', ''b'', ''c''],
      bst_data = [[2, 0, 0], [4, 0, 0], [0, 0, 0]], bst_ds = 1,
      bst_bin_centers = [0, 1, 2]\<rparr>"




section \<open>Normalisation by occupancy\<close>

text \<open>
  Claim C4. For a ratemap of \<open>n_units\<close> rows with one entry per occupancy bin,
  \<^verbatim>\<open>_normalize_firing_rate_by_occupancy\<close> returns a ratemap of the same shape in which
  the entry of unit \<open>u\<close> and bin \<open>b\<close> is the old entry divided by the occupancy of bin \<open>b\<close>,
  the same divisor for every unit, except that a bin of occupancy zero is divided by 1:
  its entry is left as it was.
\<close>

theorem normalize_by_occupancy_entries:
  assumes "length rm = nu" and "list_all (\<lambda>row. length row = length occ) rm"
  shows "\<exists>out. normalize_firing_rate_by_occupancy nu occ rm = Inr out \<and> length out = nu \<and>
     (\<forall>u<nu. length (out ! u) = length occ \<and>
        (\<forall>b<length occ.
            out ! u ! b = rm ! u ! b / (if occ ! b = 0 then 1 else real (occ ! b)) \<and>
            (occ ! b = 0 \<longrightarrow> out ! u ! b = rm ! u ! b)))"
  using assms
  by (auto simp: normalize_firing_rate_by_occupancy_def Let_def list_all_iff)

theorem normalize_by_occupancy_entries_witness:
  "\<exists>out. normalize_firing_rate_by_occupancy 2 [4, 0] [[2, 3], [6, 5]] = Inr out \<and>
     out ! 0 ! 1 = 3 \<and> out ! 1 ! 0 = 3 / 2"
proof -
  have shape: "list_all (\<lambda>row. length row = length [4, 0 :: nat]) [[2, 3], [6, 5 :: real]]"
    by simp
  have len: "length [[2, 3], [6, 5 :: real]] = 2"
    by simp
  from normalize_by_occupancy_entries [OF len shape] obtain out where
    out: "normalize_firing_rate_by_occupancy 2 [4, 0] [[2, 3], [6, 5]] = Inr out"
    and entries: "\<forall>u<2. \<forall>b<length [4, 0 :: nat].
        out ! u ! b = [[2, 3], [6, 5]] ! u ! b / (if [4, 0 :: nat] ! b = 0 then 1 else real ([4, 0] ! b))"
    by blast
  from entries have "out ! 0 ! 1 = 3"
    by force
  moreover from entries have "out ! 1 ! 0 = 3 / 2"
    by force
  ultimately show ?thesis
    using out by blast
qed

section \<open>The operator \<^verbatim>\<open>+\<close>\<close>

text \<open>
  Claim C9 as stated fails: adding two curves does not signal a TypeError. The branch for
  a curve operand raises NotImplementedError; TypeError is what the branch after it raises,
  for an operand that is neither a number nor a curve.
\<close>

theorem add_two_curves_counterexample:
  "add example_curve (Curve example_curve) \<noteq> Inl TypeError"
  by (simp add: add_def)

text \<open>
  Claim C9, amended. For every pair of tuning curves, \<^verbatim>\<open>+\<close> raises NotImplementedError
  (and a TypeError only for an operand that is neither a number nor a curve); adding a
  number returns a new curve whose ratemap is the sum entry by entry, with every other
  field as in the receiver, and leaves the receiver as it was.
\<close>

theorem add_curve_or_number:
  assumes "u < length (ratemap self)" and "b < length (ratemap self ! u)"
  shows "add self (Curve other) = Inl NotImplementedError \<and>
         add self OtherObject = Inl TypeError \<and>
         (\<exists>out. add self (Number x) = Inr (self, out) \<and>
            length (ratemap out) = length (ratemap self) \<and>
            length (ratemap out ! u) = length (ratemap self ! u) \<and>
            ratemap out ! u ! b = ratemap self ! u ! b + x \<and>
            out\<lparr>ratemap := ratemap self\<rparr> = self)"
  using assms by (simp add: add_def)

theorem add_curve_or_number_witness:
  "add example_curve (Curve example_curve) = Inl NotImplementedError \<and>
   (\<exists>out. add example_curve (Number 10) = Inr (example_curve, out) \<and>
      ratemap out ! 1 ! 0 = 13)"
proof -
  have u: "1 < length (ratemap example_curve)"
    by (simp add: example_curve_def)
  have b: "0 < length (ratemap example_curve ! 1)"
    by (simp add: example_curve_def)
  have v: "ratemap example_curve ! 1 ! 0 + 10 = 13"
    by (simp add: example_curve_def)
  from add_curve_or_number [OF u b, of example_curve 10] v show ?thesis
    by auto
qed

section \<open>Subsetting by unit ids\<close>

text \<open>A present id is kept, an absent one is dropped with one warning.\<close>

lemma unit_subset_present_and_absent:
  "unit_subset gf example_curve [9, 3] =
     ([UnitNotFound 3],
      Inr (Built (example_curve\<lparr>unit_ids := [9], unit_labels := [''b''],
                                  ratemap := [[3, 4]]\<rparr>)))"
  by (simp add: unit_subset_def example_curve_def take_rows_def)

text \<open>When none of the requested ids is present, the call always ends in the TypeError.\<close>

lemma list_index_absent: "x \<notin> set xs \<Longrightarrow> list_index xs x = Inl ValueError"
  by (induction xs) auto

lemma unit_subset_none_present_raises:
  assumes "set unit_list \<inter> set (unit_ids self) = {}"
  shows "unit_subset gf self unit_list =
           (map UnitNotFound unit_list @ [NoUnitsRemaining], Inl TypeError)"
proof -
  have "subset_positions (unit_ids self) unit_list = (map UnitNotFound unit_list, [])"
    using assms
  proof (induction unit_list)
    case Nil
    then show ?case by simp
  next
    case (Cons u us)
    then have "u \<notin> set (unit_ids self)" by simp
    then have "list_index (unit_ids self) u = Inl ValueError"
      by (rule list_index_absent)
    with Cons show ?case by simp
  qed
  then show ?thesis
    by (simp add: unit_subset_def take_rows_def TuningCurve1D_new_def)
qed

text \<open>
  Claim C8: the code misses it when no unit remains. Subsetting the example curve to the
  absent id 3 issues the two warnings and then raises a TypeError instead of returning an
  empty curve: \<^verbatim>\<open>TuningCurve1D(empty=True)\<close> passes neither \<^verbatim>\<open>bst\<close> nor \<^verbatim>\<open>extern\<close>.
\<close>

theorem unit_subset_no_units_raises:
  "unit_subset gf example_curve [3] = ([UnitNotFound 3, NoUnitsRemaining], Inl TypeError)"
  by (simp add: unit_subset_def example_curve_def take_rows_def TuningCurve1D_new_def)

section \<open>Retained units\<close>

text \<open>Exactly one unit above the peak threshold always ends in the TypeError.\<close>

lemma restrict_units_single_peak_raises:
  assumes "filter (\<lambda>i. Max (set (rm ! i)) > min_peak) [0..<length rm] = [i]"
    and "\<not> list_ex (\<lambda>row. row = []) rm" and "length rm \<le> length ids"
  shows "restrict_units ids min_peak max_avg unimod rm = Inl TypeError"
proof -
  have "filter (\<lambda>i. map (\<lambda>row. Max (set row) > min_peak) rm ! i) [0..<length rm] =
        filter (\<lambda>i. Max (set (rm ! i)) > min_peak) [0..<length rm]"
    by (rule filter_cong) simp_all
  with assms(1) have "argwhere_squeeze_tolist (map (\<lambda>row. Max (set row) > min_peak) rm) = Scalar i"
    by (simp add: argwhere_squeeze_tolist_def)
  moreover from assms(1) have "i \<in> set (filter (\<lambda>i. Max (set (rm ! i)) > min_peak) [0..<length rm])"
    by simp
  then have "i < length rm" by simp
  ultimately show ?thesis
    using assms(2,3) by (simp add: restrict_units_def set_of_selected_def)
qed


text \<open>
  Claim C5: the code misses it when exactly one unit qualifies. Of three units only the
  first has a peak above 1.5 Hz (all three have a mean below 10 Hz); \<^verbatim>\<open>restrict_units\<close>
  raises a TypeError instead of retaining that unit.
\<close>

theorem restrict_units_one_qualifying_raises:
  "restrict_units [1, 2, 3] 1.5 10 False [[2, 2], [1, 1], [1, 1]] = Inl TypeError"
  by (simp add: restrict_units_def argwhere_squeeze_tolist_def set_of_selected_def mean_def
      upt_rec [of 0] upt_rec [of "Suc 0"])

section \<open>Reordering units\<close>

subsection \<open>\<^verbatim>\<open>list.index\<close>\<close>

lemma list_index_Inr:
  "list_index xs x = Inr i \<Longrightarrow> i < length xs \<and> xs ! i = x \<and> x \<notin> set (take i xs)"
proof (induction xs arbitrary: i)
  case Nil
  then show ?case by simp
next
  case (Cons y ys)
  show ?case
  proof (cases "y = x")
    case True
    with Cons.prems show ?thesis by simp
  next
    case False
    with Cons.prems obtain j where j: "list_index ys x = Inr j" and i: "i = Suc j"
      by (auto split: sum.splits)
    from Cons.IH [OF j] False i show ?thesis by simp
  qed
qed

lemma list_index_mem: "x \<in> set xs \<Longrightarrow> \<exists>i. list_index xs x = Inr i"
  by (induction xs) (auto split: sum.splits)

lemma list_index_distinct:
  "distinct xs \<Longrightarrow> i < length xs \<Longrightarrow> list_index xs (xs ! i) = Inr i"
proof -
  assume d: "distinct xs" and i: "i < length xs"
  then obtain j where j: "list_index xs (xs ! i) = Inr j"
    using list_index_mem [of "xs ! i" xs] by auto
  from list_index_Inr [OF j] have "j < length xs" "xs ! j = xs ! i" by auto
  with d i have "j = i" by (simp add: nth_eq_iff_index_eq)
  with j show ?thesis by simp
qed

lemma swap_Inr: "frm < length xs \<Longrightarrow> to < length xs \<Longrightarrow>
    swap xs frm to = Inr (xs[frm := xs ! to, to := xs ! frm])"
  by (simp add: swap_def)

lemma map_nth_swap:
  "i < length old \<Longrightarrow> j < length old \<Longrightarrow>
   (map f old)[i := map f old ! j, j := map f old ! i] = map f (old[i := old ! j, j := old ! i])"
  by (simp add: map_update)

subsection \<open>The reordering loop\<close>

text \<open>
  The invariant of the loop: \<open>oldorder\<close> is a permutation of the positions and says
  which original row stands where; the rows, ids and labels are the original ones read
  through it; the prefix already processed agrees with \<open>neworder\<close>.
\<close>

lemma update_same_fields:
  "ratemap out = a \<Longrightarrow> unit_ids out = b \<Longrightarrow> unit_labels out = c \<Longrightarrow>
   out\<lparr>ratemap := a, unit_ids := b, unit_labels := c\<rparr> = (out :: tuning_curve)"
  by (cases out) simp

lemma reorder_loop_perm:
  assumes "distinct (pre @ rest)" and "set (pre @ rest) = {0..<n}"
    and "length old = n" and "distinct old" and "set old = {0..<n}"
    and "take (length pre) old = pre"
    and "ratemap out = map (\<lambda>i. rm ! i) old"
    and "unit_ids out = map (\<lambda>i. ids ! i) old"
    and "unit_labels out = map (\<lambda>i. labels ! i) old"
  shows "reorder_loop (length pre) rest old out =
           Inr (out\<lparr>ratemap := map (\<lambda>i. rm ! i) (pre @ rest),
                    unit_ids := map (\<lambda>i. ids ! i) (pre @ rest),
                    unit_labels := map (\<lambda>i. labels ! i) (pre @ rest)\<rparr>)"
  using assms
proof (induction rest arbitrary: pre old out)
  case Nil
  from Nil.prems(1,2) have "length pre = n"
    using distinct_card [of pre] by simp
  with Nil.prems(3,6) have "old = pre" by simp
  with Nil.prems(7,8,9) have "out\<lparr>ratemap := map (\<lambda>i. rm ! i) pre,
                    unit_ids := map (\<lambda>i. ids ! i) pre,
                    unit_labels := map (\<lambda>i. labels ! i) pre\<rparr> = out"
    by (intro update_same_fields) simp_all
  then show ?case by (simp only: reorder_loop.simps append_Nil2)
next
  case (Cons ni rest)
  let ?oi = "length pre"
  from Cons.prems(1,2) have len: "length (pre @ ni # rest) = n"
    using distinct_card [of "pre @ ni # rest"] by simp
  then have oi: "?oi < n" by simp
  from Cons.prems(2) have "ni \<in> {0..<n}" by auto
  with Cons.prems(5) have "ni \<in> set old" by simp
  then have "\<exists>i. list_index old ni = Inr i"
    by (rule list_index_mem)
  then obtain frm where frm: "list_index old ni = Inr frm" ..
  from list_index_Inr [OF frm] have frm_lt: "frm < length old" and frm_nth: "old ! frm = ni"
    by auto
  from Cons.prems(1) have "ni \<notin> set pre" by simp
  with Cons.prems(6) have notin: "ni \<notin> set (take ?oi old)" by simp
  have frm_ge: "?oi \<le> frm"
  proof (rule ccontr)
    assume "\<not> ?oi \<le> frm"
    then have "frm < ?oi" by simp
    with frm_lt have "take ?oi old ! frm = old ! frm" "frm < length (take ?oi old)"
      by simp_all
    then have "old ! frm \<in> set (take ?oi old)"
      using nth_mem by metis
    with frm_nth notin show False by simp
  qed
  let ?old' = "old[frm := old ! ?oi, ?oi := old ! frm]"
  let ?out' = "out\<lparr>ratemap := map (\<lambda>i. rm ! i) ?old',
                     unit_ids := map (\<lambda>i. ids ! i) ?old',
                     unit_labels := map (\<lambda>i. labels ! i) ?old'\<rparr>"
  from oi Cons.prems(3) have oi_lt: "?oi < length old" by simp
  have take': "take (length (pre @ [ni])) ?old' = pre @ [ni]"
  proof -
    have "take (Suc ?oi) ?old' = take ?oi ?old' @ [?old' ! ?oi]"
      using oi_lt by (simp add: take_Suc_conv_app_nth)
    also have "take ?oi ?old' = take ?oi old"
      using frm_ge by simp
    also have "?old' ! ?oi = ni"
      using oi_lt frm_nth by simp
    finally show ?thesis using Cons.prems(6) by simp
  qed
  have sw: "swap (map f old) frm ?oi = Inr (map f ?old')" for f :: "nat \<Rightarrow> 'b"
    using frm_lt oi_lt by (simp add: swap_def map_update)
  have sw_old: "swap old frm ?oi = Inr ?old'"
    using frm_lt oi_lt by (simp add: swap_def)
  have step: "reorder_loop ?oi (ni # rest) old out = reorder_loop (Suc ?oi) rest ?old' ?out'"
    by (simp only: reorder_loop.simps frm sum.case Cons.prems(7,8,9) sw sw_old)
  have "reorder_loop (length (pre @ [ni])) rest ?old' ?out' =
          Inr (?out'\<lparr>ratemap := map (\<lambda>i. rm ! i) ((pre @ [ni]) @ rest),
                    unit_ids := map (\<lambda>i. ids ! i) ((pre @ [ni]) @ rest),
                    unit_labels := map (\<lambda>i. labels ! i) ((pre @ [ni]) @ rest)\<rparr>)"
  proof (rule Cons.IH)
    show "distinct ((pre @ [ni]) @ rest)" using Cons.prems(1) by simp
    show "set ((pre @ [ni]) @ rest) = {0..<n}" using Cons.prems(2) by simp
    show "length ?old' = n" using Cons.prems(3) by simp
    show "distinct ?old'" using Cons.prems(4) frm_lt oi_lt by simp
    show "set ?old' = {0..<n}" using Cons.prems(5) frm_lt oi_lt by simp
    show "take (length (pre @ [ni])) ?old' = pre @ [ni]" by (rule take')
    show "ratemap ?out' = map (\<lambda>i. rm ! i) ?old'" by simp
    show "unit_ids ?out' = map (\<lambda>i. ids ! i) ?old'" by simp
    show "unit_labels ?out' = map (\<lambda>i. labels ! i) ?old'" by simp
  qed
  then have "reorder_loop (Suc ?oi) rest ?old' ?out' =
          Inr (out\<lparr>ratemap := map (\<lambda>i. rm ! i) (pre @ ni # rest),
                    unit_ids := map (\<lambda>i. ids ! i) (pre @ ni # rest),
                    unit_labels := map (\<lambda>i. labels ! i) (pre @ ni # rest)\<rparr>)"
    by simp
  with step show ?case by (simp only:)
qed

lemma reorder_units_by_idx_perm:
  assumes "length (ratemap self) = n" and "length (unit_ids self) = n"
    and "length (unit_labels self) = n" and "distinct p" and "set p = {0..<n}"
  shows "reorder_units_by_idx self p inplace =
           Inr (if inplace
                then self\<lparr>ratemap := map (\<lambda>i. ratemap self ! i) p,
                          unit_ids := map (\<lambda>i. unit_ids self ! i) p,
                          unit_labels := map (\<lambda>i. unit_labels self ! i) p\<rparr>
                else self,
                self\<lparr>ratemap := map (\<lambda>i. ratemap self ! i) p,
                     unit_ids := map (\<lambda>i. unit_ids self ! i) p,
                     unit_labels := map (\<lambda>i. unit_labels self ! i) p\<rparr>)"
proof -
  from assms(4,5) have len: "length p = n"
    using distinct_card [of p] by simp
  have "reorder_loop (length ([] :: nat list)) p [0..<n] self =
          Inr (self\<lparr>ratemap := map (\<lambda>i. ratemap self ! i) ([] @ p),
                    unit_ids := map (\<lambda>i. unit_ids self ! i) ([] @ p),
                    unit_labels := map (\<lambda>i. unit_labels self ! i) ([] @ p)\<rparr>)"
  proof (rule reorder_loop_perm [where n = n])
    show "ratemap self = map (\<lambda>i. ratemap self ! i) [0..<n]"
      using map_nth [of "ratemap self"] assms(1) by simp
    show "unit_ids self = map (\<lambda>i. unit_ids self ! i) [0..<n]"
      using map_nth [of "unit_ids self"] assms(2) by simp
    show "unit_labels self = map (\<lambda>i. unit_labels self ! i) [0..<n]"
      using map_nth [of "unit_labels self"] assms(3) by simp
  qed (use assms(4,5) in simp_all)
  then show ?thesis
    by (simp add: reorder_units_by_idx_def len)
qed

lemma inverse_perm:
  assumes "distinct p" and "set p = {0..<n}" and "length q = n"
    and "\<forall>i<n. q ! (p ! i) = i"
  shows "distinct q \<and> set q = {0..<n} \<and> (\<forall>j<n. p ! (q ! j) = j)"
proof -
  from assms(1,2) have len: "length p = n"
    using distinct_card [of p] by simp
  have pq: "p ! (q ! j) = j \<and> q ! j < n" if "j < n" for j
  proof -
    from that assms(2) have "j \<in> set p" by simp
    then obtain i where i: "i < length p" "p ! i = j"
      by (auto simp: in_set_conv_nth)
    with assms(4) len have "q ! j = i" by auto
    with i len show ?thesis by simp
  qed
  have "distinct q"
    unfolding distinct_conv_nth
  proof (intro allI impI)
    fix i j assume "i < length q" "j < length q" "i \<noteq> j"
    with assms(3) pq [of i] pq [of j] show "q ! i \<noteq> q ! j"
      by metis
  qed
  moreover have "set q \<subseteq> {0..<n}"
    using pq assms(3) by (auto simp: in_set_conv_nth)
  moreover from \<open>distinct q\<close> assms(3) have "card (set q) = card {0..<n}"
    by (simp add: distinct_card)
  ultimately have "set q = {0..<n}"
    by (simp add: card_subset_eq)
  with \<open>distinct q\<close> pq show ?thesis by simp
qed

text \<open>
  \<^verbatim>\<open>reorder_units_by_ids\<close> with a rearrangement of distinct unit ids is the same
  reordering, by the positions of the requested ids; the unit ids of the result are the
  requested ones.
\<close>

lemma index_all_Inr:
  "index_all ids xs = Inr p \<Longrightarrow>
   length p = length xs \<and> (\<forall>k<length xs. list_index ids (xs ! k) = Inr (p ! k))"
proof (induction xs arbitrary: p)
  case Nil
  then show ?case by simp
next
  case (Cons x xs)
  from Cons.prems obtain i q where i: "list_index ids x = Inr i" and q: "index_all ids xs = Inr q"
    and p: "p = i # q"
    by (auto split: sum.splits)
  from Cons.IH [OF q] i p show ?case
    by (auto simp: nth_Cons split: nat.splits)
qed

lemma index_all_total: "set xs \<subseteq> set ids \<Longrightarrow> \<exists>p. index_all ids xs = Inr p"
proof (induction xs)
  case Nil
  then show ?case by simp
next
  case (Cons x xs)
  then obtain q where "index_all ids xs = Inr q" by auto
  moreover from Cons.prems have "\<exists>i. list_index ids x = Inr i"
    by (intro list_index_mem) simp
  ultimately show ?case by auto
qed

lemma index_all_perm:
  assumes "distinct ids" and "distinct new" and "set new = set ids"
  shows "\<exists>p. index_all ids new = Inr p \<and> distinct p \<and> set p = {0..<length ids} \<and>
              map (\<lambda>i. ids ! i) p = new"
proof -
  from assms(3) obtain p where p: "index_all ids new = Inr p"
    using index_all_total [of new ids] by auto
  from index_all_Inr [OF p] have len: "length p = length new"
    and idx: "\<And>k. k < length new \<Longrightarrow> list_index ids (new ! k) = Inr (p ! k)"
    by simp_all
  have pos: "p ! k < length ids \<and> ids ! (p ! k) = new ! k" if "k < length new" for k
    using list_index_Inr [OF idx [OF that]] by simp
  have map: "map (\<lambda>i. ids ! i) p = new"
    by (rule nth_equalityI) (simp_all add: len pos)
  with assms(2) have dp: "distinct p"
    by (metis distinct_map)
  from assms have "length new = length ids"
    by (metis distinct_card)
  with len dp have "card (set p) = card {0..<length ids}"
    by (simp add: distinct_card)
  moreover have "set p \<subseteq> {0..<length ids}"
    using pos len by (auto simp: in_set_conv_nth)
  ultimately have "set p = {0..<length ids}"
    by (simp add: card_subset_eq)
  with p dp map show ?thesis by blast
qed

lemma reorder_units_by_ids_perm:
  assumes "length (ratemap self) = n" and "length (unit_ids self) = n"
    and "length (unit_labels self) = n"
    and "distinct (unit_ids self)" and "distinct new" and "set new = set (unit_ids self)"
  shows "\<exists>p. distinct p \<and> set p = {0..<n} \<and> map (\<lambda>i. unit_ids self ! i) p = new \<and>
     reorder_units_by_ids self new inplace =
       Inr (if inplace
            then self\<lparr>ratemap := map (\<lambda>i. ratemap self ! i) p, unit_ids := new,
                      unit_labels := map (\<lambda>i. unit_labels self ! i) p\<rparr>
            else self,
            self\<lparr>ratemap := map (\<lambda>i. ratemap self ! i) p, unit_ids := new,
                 unit_labels := map (\<lambda>i. unit_labels self ! i) p\<rparr>)"
proof -
  from index_all_perm [OF assms(4,5,6)] assms(2) obtain p where
    p: "index_all (unit_ids self) new = Inr p" and dp: "distinct p" and sp: "set p = {0..<n}"
    and map: "map (\<lambda>i. unit_ids self ! i) p = new"
    by auto
  have "reorder_units_by_ids self new inplace = reorder_units_by_idx self p inplace"
    by (simp add: reorder_units_by_ids_def reorder_units_by_idx_def p)
  with reorder_units_by_idx_perm [OF assms(1-3) dp sp, of inplace] map dp sp show ?thesis
    by (intro exI [of _ p]) simp
qed


text \<open>
  Claim C7. For a curve of \<open>n\<close> units and a permutation \<open>p\<close> of the positions
  \<open>0..<n\<close>, \<^verbatim>\<open>_reorder_units_by_idx\<close> puts the ratemap rows, the unit ids and the unit
  labels in the order \<open>p\<close>, all three by the same permutation; reordering the result by
  the inverse permutation \<open>q\<close> gives back the original curve exactly.
\<close>

theorem reorder_round_trip:
  assumes "length (ratemap self) = n" and "length (unit_ids self) = n"
    and "length (unit_labels self) = n"
    and "distinct p" and "set p = {0..<n}"
    and "length q = n" and "\<forall>i<n. q ! (p ! i) = i"
  shows "\<exists>out1.
     reorder_units_by_idx self p inplace = Inr (if inplace then out1 else self, out1) \<and>
     ratemap out1 = map (\<lambda>i. ratemap self ! i) p \<and>
     unit_ids out1 = map (\<lambda>i. unit_ids self ! i) p \<and>
     unit_labels out1 = map (\<lambda>i. unit_labels self ! i) p \<and>
     reorder_units_by_idx out1 q inplace' = Inr (if inplace' then self else out1, self)"
proof -
  let ?out1 = "self\<lparr>ratemap := map (\<lambda>i. ratemap self ! i) p,
                     unit_ids := map (\<lambda>i. unit_ids self ! i) p,
                     unit_labels := map (\<lambda>i. unit_labels self ! i) p\<rparr>"
  from assms(4,5) have len: "length p = n"
    using distinct_card [of p] by simp
  from inverse_perm [OF assms(4-7)] have q: "distinct q" "set q = {0..<n}"
    and pq: "\<And>j. j < n \<Longrightarrow> p ! (q ! j) = j" by auto
  have first: "reorder_units_by_idx self p inplace = Inr (if inplace then ?out1 else self, ?out1)"
    using reorder_units_by_idx_perm [OF assms(1-5), of inplace] by simp
  have restore: "map (\<lambda>i. map (\<lambda>i. xs ! i) p ! i) q = xs" if "length xs = n" for xs :: "'b list"
  proof (rule nth_equalityI)
    show "length (map (\<lambda>i. map (\<lambda>i. xs ! i) p ! i) q) = length xs"
      using that assms(6) by simp
    fix j assume "j < length (map (\<lambda>i. map (\<lambda>i. xs ! i) p ! i) q)"
    then have j: "j < n" using assms(6) by simp
    then have "q ! j \<in> set q" using assms(6) by simp
    with q(2) have "q ! j < length p" using len by simp
    with j assms(6) pq [OF j] show "map (\<lambda>i. map (\<lambda>i. xs ! i) p ! i) q ! j = xs ! j"
      by simp
  qed
  have "reorder_units_by_idx ?out1 q inplace' =
          Inr (if inplace'
               then ?out1\<lparr>ratemap := map (\<lambda>i. ratemap ?out1 ! i) q,
                     unit_ids := map (\<lambda>i. unit_ids ?out1 ! i) q,
                     unit_labels := map (\<lambda>i. unit_labels ?out1 ! i) q\<rparr>
               else ?out1,
               ?out1\<lparr>ratemap := map (\<lambda>i. ratemap ?out1 ! i) q,
                     unit_ids := map (\<lambda>i. unit_ids ?out1 ! i) q,
                     unit_labels := map (\<lambda>i. unit_labels ?out1 ! i) q\<rparr>)"
    using reorder_units_by_idx_perm [of ?out1 n q inplace'] q len by simp
  then have second: "reorder_units_by_idx ?out1 q inplace' = Inr (if inplace' then self else ?out1, self)"
    using restore [OF assms(1)] restore [OF assms(2)] restore [OF assms(3)] by simp
  from first second show ?thesis by simp
qed

theorem reorder_round_trip_witness:
  "\<exists>out1. reorder_units_by_idx example_curve3 [2, 0, 1] False = Inr (example_curve3, out1) \<and>
     ratemap out1 = [[5, 6], [1, 2], [3, 4]] \<and> unit_ids out1 = [4, 7, 9] \<and>
     unit_labels out1 = [''c'', ''a'', ''b''] \<and>
     reorder_units_by_idx out1 [1, 2, 0] False = Inr (out1, example_curve3)"
proof -
  have set_p: "set [2, 0, 1 :: nat] = {0..<3}"
    by auto
  have inv: "\<forall>i<3. [1, 2, 0 :: nat] ! ([2, 0, 1] ! i) = i"
    by (auto simp: less_Suc_eq numeral_3_eq_3)
  from reorder_round_trip [of example_curve3 3 "[2, 0, 1]" "[1, 2, 0]" False False, OF _ _ _ _ set_p _ inv]
  show ?thesis
    by (simp add: example_curve3_def)
qed

section \<open>Normalisation by the peak rate\<close>

text \<open>Dividing a row by its positive maximum makes the maximum 1.\<close>

lemma Max_divide_row:
  assumes "row \<noteq> []" and "0 < Max (set row)"
  shows "Max (set (map (\<lambda>x. x / Max (set row)) row)) = (1 :: real)"
proof -
  let ?m = "Max (set row)"
  have "mono (\<lambda>x :: real. x / ?m)"
    using assms(2) by (intro monoI) (simp add: divide_right_mono)
  then have "(\<lambda>x. x / ?m) (Max (set row)) = Max ((\<lambda>x. x / ?m) ` set row)"
    using assms(1) by (intro mono_Max_commute) simp_all
  with assms(2) show ?thesis by simp
qed

text \<open>
  Claim C6. For a curve with at least one unit whose rows all have \<open>n_bins\<close> entries and
  a positive peak, \<^verbatim>\<open>normalize\<close> returns a curve in which every row is the old row
  divided by its peak, so that its maximum is exactly 1; with \<^verbatim>\<open>inplace=False\<close> the
  receiver is left as it was.
\<close>

theorem normalize_peak_one:
  assumes "length (ratemap self) = n_units self" and "1 \<le> n_units self"
    and "\<forall>row\<in>set (ratemap self). row \<noteq> [] \<and> length row = n_bins self \<and> 0 < Max (set row)"
  shows "\<exists>out. normalize self inplace = Inr (if inplace then out else self, out) \<and>
     length (ratemap out) = length (ratemap self) \<and>
     (\<forall>u<length (ratemap self).
        ratemap out ! u = map (\<lambda>x. x / Max (set (ratemap self ! u))) (ratemap self ! u) \<and>
        Max (set (ratemap out ! u)) = 1)"
proof (cases "n_units self > 1")
  case True
  let ?new = "map (\<lambda>(row, m). map (\<lambda>x. x / m) row)
                (zip (ratemap self) (map (\<lambda>row. Max (set row)) (ratemap self)))"
  have no_empty: "\<not> list_ex (\<lambda>row. row = []) (ratemap self)"
    using assms(3) by (auto simp: list_ex_iff)
  have shape: "\<not> list_ex (\<lambda>row. length row \<noteq> n_bins self) (ratemap self)"
    using assms(3) by (auto simp: list_ex_iff)
  have nonzero: "\<not> list_ex (\<lambda>m. m = 0) (map (\<lambda>row. Max (set row)) (ratemap self))"
    using assms(3) by (auto simp: list_ex_iff)
  have res: "normalize self inplace =
      Inr (if inplace then self\<lparr>ratemap := ?new\<rparr> else self, self\<lparr>ratemap := ?new\<rparr>)"
    using True no_empty shape nonzero by (simp add: normalize_def Let_def)
  have rows: "?new ! u = map (\<lambda>x. x / Max (set (ratemap self ! u))) (ratemap self ! u)"
    if "u < length (ratemap self)" for u
    using that by simp
  have "Max (set (?new ! u)) = 1" if "u < length (ratemap self)" for u
  proof -
    from that have "ratemap self ! u \<in> set (ratemap self)" by simp
    with assms(3) have "ratemap self ! u \<noteq> []" "0 < Max (set (ratemap self ! u))" by auto
    then show ?thesis
      unfolding rows [OF that] by (rule Max_divide_row)
  qed
  with res rows show ?thesis by simp
next
  case False
  with assms(1,2) have "length (ratemap self) = Suc 0"
    by simp
  then obtain row where rm: "ratemap self = [row]"
    by (auto simp: length_Suc_conv)
  with assms(3) have row: "row \<noteq> []" "length row = n_bins self" "0 < Max (set row)"
    by auto
  let ?new = "[map (\<lambda>x. x / Max (set row)) row]"
  have res: "normalize self inplace =
      Inr (if inplace then self\<lparr>ratemap := ?new\<rparr> else self, self\<lparr>ratemap := ?new\<rparr>)"
    using False rm row by (simp add: normalize_def Let_def)
  from row have "Max (set (map (\<lambda>x. x / Max (set row)) row)) = 1"
    by (intro Max_divide_row)
  with res rm show ?thesis by simp
qed

theorem normalize_peak_one_witness:
  "\<exists>out. normalize example_curve False = Inr (example_curve, out) \<and>
     ratemap out = [[1 / 2, 1], [3 / 4, 1]] \<and> Max (set (ratemap out ! 0)) = 1"
proof -
  have wf: "length (ratemap example_curve) = n_units example_curve" "1 \<le> n_units example_curve"
    by (simp_all add: example_curve_def n_units_def)
  have rows: "\<forall>row\<in>set (ratemap example_curve).
      row \<noteq> [] \<and> length row = n_bins example_curve \<and> 0 < Max (set row)"
    by (simp add: example_curve_def n_bins_def n_bins_of_def)
  from normalize_peak_one [OF wf rows, of False] obtain out where
    out: "normalize example_curve False = Inr (example_curve, out)"
    and len: "length (ratemap out) = length (ratemap example_curve)"
    and entries: "\<forall>u<length (ratemap example_curve).
        ratemap out ! u = map (\<lambda>x. x / Max (set (ratemap example_curve ! u))) (ratemap example_curve ! u) \<and>
        Max (set (ratemap out ! u)) = 1"
    by auto
  from entries have r0: "ratemap out ! 0 = [1 / 2, 1]" and r1: "ratemap out ! 1 = [3 / 4, 1]"
    and m0: "Max (set (ratemap out ! 0)) = 1"
    by (simp_all add: example_curve_def)
  from len have "length (ratemap out) = 2" by (simp add: example_curve_def)
  with r0 r1 have "ratemap out = [[1 / 2, 1], [3 / 4, 1]]"
    by (auto simp: nth_equalityI length_Suc_conv numeral_2_eq_2)
  with out m0 show ?thesis by blast
qed

section \<open>Binning the correlate\<close>

subsection \<open>The accumulation loop\<close>

lemma py_index_column_of:
  "bidx < nb \<Longrightarrow> py_index nb (int bidx - 1) = Inr (column_of nb bidx)"
  by (cases bidx) (auto simp: py_index_def column_of_def Let_def nat_diff_distrib)

lemma column_Inr:
  "\<forall>row\<in>set d. tt < length row \<Longrightarrow> column d tt = Inr (map (\<lambda>row. row ! tt) d)"
  by (simp add: column_def list_all_iff)

lemma add_to_column_Inr:
  assumes "bidx < nb" and "length v = length rm"
  shows "add_to_column nb rm (int bidx - 1) v =
           Inr (map (\<lambda>(row, x). row[column_of nb bidx := row ! column_of nb bidx + x]) (zip rm v))"
  using assms by (simp add: add_to_column_def py_index_column_of)

lemma accumulate_entries:
  assumes "\<forall>i\<in>set idxs. i < nb"
    and "length d = length rm"
    and "\<forall>row\<in>set d. tt + length idxs \<le> length row"
    and "\<forall>row\<in>set rm. length row = nb"
  shows "\<exists>rm'. accumulate nb d tt idxs rm = Inr rm' \<and> length rm' = length rm \<and>
     (\<forall>u<length rm. length (rm' ! u) = nb \<and>
        (\<forall>c<nb. rm' ! u ! c =
            rm ! u ! c + (\<Sum>k<length idxs. if column_of nb (idxs ! k) = c then d ! u ! (tt + k) else 0)))"
  using assms
proof (induction idxs arbitrary: tt rm)
  case Nil
  then show ?case by simp
next
  case (Cons bidx rest)
  let ?c = "column_of nb bidx"
  let ?v = "map (\<lambda>row. row ! tt) d"
  let ?rm1 = "map (\<lambda>(row, x). row[?c := row ! ?c + x]) (zip rm ?v)"
  from Cons.prems(1) have bidx: "bidx < nb" by simp
  from Cons.prems(3) have col: "column d tt = Inr ?v"
    by (intro column_Inr) auto
  from Cons.prems(2) have add: "add_to_column nb rm (int bidx - 1) ?v = Inr ?rm1"
    using add_to_column_Inr [OF bidx, of ?v rm] by simp
  have step: "accumulate nb d tt (bidx # rest) rm = accumulate nb d (Suc tt) rest ?rm1"
    by (simp only: accumulate.simps col add sum.case)
  have len1: "length ?rm1 = length rm"
    using Cons.prems(2) by simp
  have row1: "?rm1 ! u = (rm ! u)[?c := rm ! u ! ?c + d ! u ! tt]" if "u < length rm" for u
    using that Cons.prems(2) by simp
  have "\<exists>rm'. accumulate nb d (Suc tt) rest ?rm1 = Inr rm' \<and> length rm' = length ?rm1 \<and>
     (\<forall>u<length ?rm1. length (rm' ! u) = nb \<and>
        (\<forall>c<nb. rm' ! u ! c =
            ?rm1 ! u ! c + (\<Sum>k<length rest. if column_of nb (rest ! k) = c then d ! u ! (Suc tt + k) else 0)))"
  proof (rule Cons.IH)
    show "\<forall>i\<in>set rest. i < nb" using Cons.prems(1) by simp
    show "length d = length ?rm1" using Cons.prems(2) by simp
    show "\<forall>row\<in>set d. Suc tt + length rest \<le> length row" using Cons.prems(3) by simp
    show "\<forall>row\<in>set ?rm1. length row = nb"
      using Cons.prems(4) by (auto dest!: set_zip_leftD)
  qed
  then obtain rm' where acc: "accumulate nb d (Suc tt) rest ?rm1 = Inr rm'"
    and len': "length rm' = length rm"
    and ent: "\<And>u c. u < length rm \<Longrightarrow> c < nb \<Longrightarrow> length (rm' ! u) = nb \<and> rm' ! u ! c =
            ?rm1 ! u ! c + (\<Sum>k<length rest. if column_of nb (rest ! k) = c then d ! u ! (Suc tt + k) else 0)"
    using len1 by auto
  have ent2: "length (rm' ! u) = nb \<and> rm' ! u ! c =
      rm ! u ! c + (\<Sum>k<length (bidx # rest). if column_of nb ((bidx # rest) ! k) = c then d ! u ! (tt + k) else 0)"
    if u: "u < length rm" and c: "c < nb" for u c
  proof -
    from u Cons.prems(4) have lenrow: "length (rm ! u) = nb" by simp
    have "?rm1 ! u ! c = rm ! u ! c + (if ?c = c then d ! u ! tt else 0)"
      using row1 [OF u] c lenrow by (simp add: nth_list_update)
    moreover have "(\<Sum>k<length (bidx # rest).
          if column_of nb ((bidx # rest) ! k) = c then d ! u ! (tt + k) else 0) =
        (if ?c = c then d ! u ! tt else 0) +
        (\<Sum>k<length rest. if column_of nb (rest ! k) = c then d ! u ! (Suc tt + k) else 0)"
      by (simp only: length_Cons sum.lessThan_Suc_shift) (simp cong: if_cong)
    ultimately show ?thesis
      using ent [OF u c] by (simp only:) simp
  qed
  have ents: "\<forall>u<length rm. length (rm' ! u) = nb \<and>
        (\<forall>c<nb. rm' ! u ! c =
            rm ! u ! c + (\<Sum>k<length (bidx # rest).
               if column_of nb ((bidx # rest) ! k) = c then d ! u ! (tt + k) else 0))"
  proof (intro allI impI conjI)
    fix u assume u: "u < length rm"
    from bidx have "0 < nb" by simp
    from ent2 [OF u this] show "length (rm' ! u) = nb" by (rule conjunct1)
  next
    fix u c assume "u < length rm" and "c < nb"
    from ent2 [OF this] show "rm' ! u ! c =
            rm ! u ! c + (\<Sum>k<length (bidx # rest).
               if column_of nb ((bidx # rest) ! k) = c then d ! u ! (tt + k) else 0)"
      by (rule conjunct2)
  qed
  from step acc have "accumulate nb d tt (bidx # rest) rm = Inr rm'"
    by (simp only:)
  with len' ents show ?case
    by blast
qed

subsection \<open>The ratemap before normalisation\<close>

lemma digitize_sorted:
  "sorted edges \<Longrightarrow> digitize xs edges = Inr (map (searchsorted_left edges) xs)"
  by (simp add: digitize_def)

lemma compute_ratemap_raises:
  assumes "sorted edges" and "x \<in> set ext" and "n_bins_of edges \<le> searchsorted_left edges x"
  shows "compute_ratemap edges nu bst ext = Inl ValueError"
proof -
  from assms(2,3) have "searchsorted_left edges x \<in>
      set (filter (\<lambda>i. n_bins_of edges \<le> i) (map (searchsorted_left edges) ext))"
    by simp
  then have "0 < length (filter (\<lambda>i. n_bins_of edges \<le> i) (map (searchsorted_left edges) ext))"
    by (metis length_pos_if_in_set)
  then show ?thesis
    using assms(1) by (simp add: compute_ratemap_def digitize_sorted)
qed

lemma compute_ratemap_entries:
  assumes "sorted edges"
    and "\<forall>x\<in>set ext. searchsorted_left edges x < n_bins_of edges"
    and "length (bst_data bst) = nu"
    and "\<forall>row\<in>set (bst_data bst). length ext \<le> length row"
    and "bst_ds bst \<noteq> 0"
  shows "\<exists>rm. compute_ratemap edges nu bst ext = Inr rm \<and> length rm = nu \<and>
     (\<forall>u<nu. length (rm ! u) = n_bins_of edges \<and>
        (\<forall>c<n_bins_of edges. rm ! u ! c =
            (\<Sum>k<length ext. if column_of (n_bins_of edges) (searchsorted_left edges (ext ! k)) = c
                              then bst_data bst ! u ! k else 0) / bst_ds bst))"
proof -
  let ?nb = "n_bins_of edges"
  let ?idx = "map (searchsorted_left edges) ext"
  let ?zero = "replicate nu (replicate ?nb (0 :: real))"
  from assms(2) have none: "filter (\<lambda>i. ?nb \<le> i) ?idx = []"
    by (auto simp: filter_empty_conv)
  from assms(2) have all: "filter (\<lambda>i. i < ?nb) ?idx = ?idx"
    by (auto simp: filter_id_conv)
  have "\<exists>rm'. accumulate ?nb (bst_data bst) 0 ?idx ?zero = Inr rm' \<and> length rm' = length ?zero \<and>
     (\<forall>u<length ?zero. length (rm' ! u) = ?nb \<and>
        (\<forall>c<?nb. rm' ! u ! c =
            ?zero ! u ! c + (\<Sum>k<length ?idx. if column_of ?nb (?idx ! k) = c
                                then bst_data bst ! u ! (0 + k) else 0)))"
  proof (rule accumulate_entries)
    show "\<forall>i\<in>set ?idx. i < ?nb" using assms(2) by simp
    show "length (bst_data bst) = length ?zero" using assms(3) by simp
    show "\<forall>row\<in>set (bst_data bst). 0 + length ?idx \<le> length row" using assms(4) by simp
    show "\<forall>row\<in>set ?zero. length row = ?nb" by simp
  qed
  then obtain rm' where acc: "accumulate ?nb (bst_data bst) 0 ?idx ?zero = Inr rm'"
    and len: "length rm' = nu"
    and ent: "\<forall>u<nu. length (rm' ! u) = ?nb \<and>
        (\<forall>c<?nb. rm' ! u ! c =
            (\<Sum>k<length ext. if column_of ?nb (searchsorted_left edges (ext ! k)) = c
                                then bst_data bst ! u ! k else 0))"
    by (auto cong: if_cong)
  have res: "compute_ratemap edges nu bst ext = Inr (map (map (\<lambda>x. x / bst_ds bst)) rm')"
    using assms(1,5) none all acc by (simp add: compute_ratemap_def digitize_sorted)
  show ?thesis
    unfolding res using len ent by simp
qed

lemma searchsorted_left_zero:
  assumes "sorted edges" and "edges \<noteq> []"
  shows "searchsorted_left edges x = 0 \<longleftrightarrow> x \<le> hd edges"
proof
  assume "searchsorted_left edges x = 0"
  then have "\<forall>b\<in>set edges. \<not> b < x"
    by (simp add: searchsorted_left_def filter_empty_conv)
  with assms(2) show "x \<le> hd edges"
    by (cases edges) auto
next
  assume x: "x \<le> hd edges"
  from assms have "\<forall>b\<in>set edges. hd edges \<le> b"
    by (cases edges) auto
  with x have "\<forall>b\<in>set edges. \<not> b < x" by fastforce
  then show "searchsorted_left edges x = 0"
    by (simp add: searchsorted_left_def filter_empty_conv)
qed

lemma column_of_last:
  "bidx < nb \<Longrightarrow> column_of nb bidx = nb - 1 \<longleftrightarrow> bidx = 0"
  by (auto simp: column_of_def)

text \<open>
  Claim C10. With at least one bin and no sample rejected, a sample at or below the first
  edge digitizes to index 0, \<^verbatim>\<open>_compute_ratemap\<close> returns, and the last column of every
  unit's row is the sum of the spike counts of exactly those samples (divided by
  \<^verbatim>\<open>ds\<close>): index 0 is accumulated at column \<open>-1\<close>.
\<close>

theorem below_range_goes_to_last_bin:
  assumes "sorted edges" and "1 \<le> n_bins_of edges"
    and "\<forall>x\<in>set ext. searchsorted_left edges x < n_bins_of edges"
    and "length (bst_data bst) = nu"
    and "\<forall>row\<in>set (bst_data bst). length ext \<le> length row"
    and "bst_ds bst \<noteq> 0"
    and "u < nu"
  shows "(\<forall>x. x \<le> hd edges \<longrightarrow> digitize [x] edges = Inr [0]) \<and>
     (\<exists>rm. compute_ratemap edges nu bst ext = Inr rm \<and>
        rm ! u ! (n_bins_of edges - 1) =
          (\<Sum>k<length ext. if ext ! k \<le> hd edges then bst_data bst ! u ! k else 0) / bst_ds bst)"
proof -
  from assms(2) have ne: "edges \<noteq> []"
    by (auto simp: n_bins_of_def)
  have dig: "\<forall>x. x \<le> hd edges \<longrightarrow> digitize [x] edges = Inr [0]"
    using searchsorted_left_zero [OF assms(1) ne] by (simp add: digitize_sorted [OF assms(1)])
  from compute_ratemap_entries [OF assms(1,3,4,5,6)] obtain rm where
    rm: "compute_ratemap edges nu bst ext = Inr rm"
    and ent: "\<forall>u<nu. \<forall>c<n_bins_of edges. rm ! u ! c =
            (\<Sum>k<length ext. if column_of (n_bins_of edges) (searchsorted_left edges (ext ! k)) = c
                              then bst_data bst ! u ! k else 0) / bst_ds bst"
    by blast
  have cond: "column_of (n_bins_of edges) (searchsorted_left edges (ext ! k)) = n_bins_of edges - 1
      \<longleftrightarrow> ext ! k \<le> hd edges" if "k < length ext" for k
  proof -
    from that assms(3) have "searchsorted_left edges (ext ! k) < n_bins_of edges" by simp
    from column_of_last [OF this] searchsorted_left_zero [OF assms(1) ne] show ?thesis
      by simp
  qed
  from ent assms(2,7) have "rm ! u ! (n_bins_of edges - 1) =
      (\<Sum>k<length ext. if column_of (n_bins_of edges) (searchsorted_left edges (ext ! k)) = n_bins_of edges - 1
                              then bst_data bst ! u ! k else 0) / bst_ds bst"
    by simp
  also have "(\<Sum>k<length ext. if column_of (n_bins_of edges) (searchsorted_left edges (ext ! k)) = n_bins_of edges - 1
                              then bst_data bst ! u ! k else 0) =
      (\<Sum>k<length ext. if ext ! k \<le> hd edges then bst_data bst ! u ! k else 0)"
    using cond by (intro sum.cong) auto
  finally show ?thesis
    using dig rm by blast
qed

theorem below_range_goes_to_last_bin_witness:
  "digitize [- 1] (linspace 0 1 3) = Inr [0] \<and>
   (\<exists>rm. compute_ratemap (linspace 0 1 3) 2 example_bst [- 1, 1 / 4, 0] = Inr rm \<and>
      rm ! 0 ! 1 = 7)"
proof -
  have edges: "linspace 0 1 3 = [0, 1 / 2, 1]"
    by (simp add: linspace_def upt_conv_Cons)
  have sorted: "sorted (linspace 0 1 3)"
    by (simp add: edges)
  have nb: "1 \<le> n_bins_of (linspace 0 1 3)"
    by (simp add: edges n_bins_of_def)
  have idx: "\<forall>x\<in>set [- 1, 1 / 4, 0].
      searchsorted_left (linspace 0 1 3) x < n_bins_of (linspace 0 1 3)"
    by (simp add: edges n_bins_of_def searchsorted_left_def)
  have data: "length (bst_data example_bst) = 2"
    "\<forall>row\<in>set (bst_data example_bst). length [- 1, 1 / 4, 0 :: real] \<le> length row"
    "bst_ds example_bst \<noteq> 0"
    by (simp_all add: example_bst_def)
  have u: "(0 :: nat) < 2"
    by simp
  from below_range_goes_to_last_bin [OF sorted nb idx data u]
  have dig: "\<forall>x. x \<le> hd (linspace 0 1 3) \<longrightarrow> digitize [x] (linspace 0 1 3) = Inr [0]"
    and "\<exists>rm. compute_ratemap (linspace 0 1 3) 2 example_bst [- 1, 1 / 4, 0] = Inr rm \<and>
        rm ! 0 ! (n_bins_of (linspace 0 1 3) - 1) =
          (\<Sum>k<length [- 1, 1 / 4, 0 :: real].
              if [- 1, 1 / 4, 0] ! k \<le> hd (linspace 0 1 3)
              then bst_data example_bst ! 0 ! k else 0) / bst_ds example_bst"
    by (rule conjunct1, rule conjunct2)
  then obtain rm where rm: "compute_ratemap (linspace 0 1 3) 2 example_bst [- 1, 1 / 4, 0] = Inr rm"
    and last: "rm ! 0 ! (n_bins_of (linspace 0 1 3) - 1) =
          (\<Sum>k<length [- 1, 1 / 4, 0 :: real].
              if [- 1, 1 / 4, 0] ! k \<le> hd (linspace 0 1 3)
              then bst_data example_bst ! 0 ! k else 0) / bst_ds example_bst"
    by blast
  from last [unfolded edges] have "rm ! 0 ! 1 = 7"
    by (simp add: n_bins_of_def example_bst_def numeral_3_eq_3)
  moreover from dig have "digitize [- 1] (linspace 0 1 3) = Inr [0]"
    by (simp add: edges)
  ultimately show ?thesis
    using rm by blast
qed

subsection \<open>Bin edges and the histogram\<close>

lemma length_linspace: "length (linspace lo hi num) = num"
  by (simp add: linspace_def)

lemma n_bins_of_linspace: "n_bins_of (linspace lo hi (n + 1)) = n"
  by (simp add: n_bins_of_def length_linspace)

lemma nth_linspace:
  "i < num \<Longrightarrow> linspace lo hi num ! i = lo + real i * ((hi - lo) / real (num - 1))"
  by (simp add: linspace_def)

lemma sorted_linspace:
  assumes "lo \<le> hi"
  shows "sorted (linspace lo hi num)"
  unfolding sorted_iff_nth_mono
proof (intro allI impI)
  fix i j assume "i \<le> j" and "j < length (linspace lo hi num)"
  then have j: "j < num" and i: "i < num" by (simp_all add: length_linspace)
  from assms have "0 \<le> (hi - lo) / real (num - 1)" by simp
  with \<open>i \<le> j\<close> have "real i * ((hi - lo) / real (num - 1)) \<le> real j * ((hi - lo) / real (num - 1))"
    by (intro mult_right_mono) simp_all
  then show "linspace lo hi num ! i \<le> linspace lo hi num ! j"
    by (simp add: nth_linspace i j)
qed

lemma hd_linspace: "0 < num \<Longrightarrow> hd (linspace lo hi num) = lo"
  by (simp add: linspace_def upt_conv_Cons)

lemma last_linspace: "0 < n \<Longrightarrow> last (linspace lo hi (n + 1)) = hi"
  by (simp add: linspace_def)

lemma searchsorted_left_linspace_stop:
  assumes "lo < hi" and "0 < n"
  shows "searchsorted_left (linspace lo hi (n + 1)) hi = n"
proof -
  let ?f = "\<lambda>i. lo + real i * ((hi - lo) / real n)"
  have below: "?f i < hi" if "i < n" for i
  proof -
    from that assms have "real i * ((hi - lo) / real n) < real n * ((hi - lo) / real n)"
      by (intro mult_strict_right_mono) simp_all
    with assms(2) show ?thesis by simp
  qed
  have top: "?f n = hi" using assms(2) by simp
  have "filter (\<lambda>b. b < hi) (map ?f [0..<Suc n]) = map ?f [0..<n]"
    using below top by (simp add: filter_map o_def filter_id_conv)
  then show ?thesis
    by (simp add: searchsorted_left_def linspace_def)
qed

lemma histogram_sorted:
  "sorted edges \<Longrightarrow>
   histogram a edges =
     Inr (map (\<lambda>i. length (filter (in_bin edges i) a)) [0..<length edges - 1])"
  by (simp add: histogram_def)

lemma in_bin_in_range:
  assumes "sorted edges" and "i < length edges - 1" and "in_bin edges i x"
  shows "hd edges \<le> x \<and> x \<le> last edges"
proof -
  from assms(2) have ne: "edges \<noteq> []" by auto
  from assms(1,2) have "edges ! 0 \<le> edges ! i"
    by (intro sorted_nth_mono) simp_all
  moreover from assms(1,2) have "edges ! Suc i \<le> edges ! (length edges - 1)"
    by (intro sorted_nth_mono) simp_all
  moreover from assms(3) have "edges ! i \<le> x" "x \<le> edges ! Suc i"
    by (auto simp: in_bin_def split: if_splits)
  ultimately show ?thesis
    using ne by (simp add: hd_conv_nth last_conv_nth)
qed

lemma histogram_drops_out_of_range:
  assumes "sorted edges"
  shows "histogram (filter (\<lambda>x. hd edges \<le> x \<and> x \<le> last edges) a) edges = histogram a edges"
proof -
  have "filter (in_bin edges i) (filter (\<lambda>x. hd edges \<le> x \<and> x \<le> last edges) a) =
        filter (in_bin edges i) a" if "i < length edges - 1" for i
    using in_bin_in_range [OF assms that] by (auto simp: filter_filter intro: filter_cong)
  then show ?thesis
    by (simp add: histogram_sorted [OF assms])
qed

lemma histogram_counts_last_edge:
  assumes "sorted edges" and "2 \<le> length edges"
  shows "\<exists>occ occ'. histogram (pre @ last edges # post) edges = Inr occ \<and>
     histogram (pre @ post) edges = Inr occ' \<and> length occ = length edges - 1 \<and>
     occ ! (length edges - 2) = Suc (occ' ! (length edges - 2))"
proof -
  let ?i = "length edges - 2"
  from assms(2) have i: "?i < length edges - 1" "Suc ?i = length edges - 1" by simp_all
  from assms(1,2) have "edges ! ?i \<le> edges ! (length edges - 1)"
    by (intro sorted_nth_mono) simp_all
  moreover from assms(2) have "last edges = edges ! (length edges - 1)"
    by (intro last_conv_nth) auto
  ultimately have "in_bin edges ?i (last edges)"
    using i by (simp add: in_bin_def)
  then show ?thesis
    using i by (simp add: histogram_sorted [OF assms(1)])
qed

lemma TuningCurve1D_init_estimate:
  assumes "\<not> empty_arg kw" and "n_extern kw = Some n" and "extmin kw = Some lo"
    and "extmax kw = Some hi"
  shows "TuningCurve1D_init gf bst extern kw =
     (case estimate gf (linspace lo hi (n + 1)) (length (bst_unit_ids bst)) bst extern
             (transform_func kw) (case minbgrate kw of None \<Rightarrow> 0.01 | Some m \<Rightarrow> m)
             (sigma kw) (bw kw) of
        Inl e \<Rightarrow> Inl e
      | Inr (occ, rm) \<Rightarrow>
          Inr (Built \<lparr>bins = linspace lo hi (n + 1), ratemap = rm, occupancy = occ,
                      unit_ids = bst_unit_ids bst, unit_labels = bst_unit_labels bst\<rparr>))"
  using assms by (simp add: TuningCurve1D_init_def Let_def split: sum.splits)

text \<open>
  Claim C1. For a construction with at least one bin on \<open>[lo, hi]\<close>, \<open>lo < hi\<close>, and the
  default transform: every sample whose digitized index is at or beyond \<open>n_bins\<close> makes
  \<^verbatim>\<open>_compute_ratemap\<close>, and with it the constructor, raise a ValueError; the occupancy
  is computed without an error and is the same as without the samples outside
  \<open>[lo, hi]\<close>; a sample equal to \<open>hi\<close> makes the constructor raise, although the
  occupancy counts it in its last bin.
\<close>

theorem ratemap_rejects_what_occupancy_counts:
  assumes "\<not> empty_arg kw" and "n_extern kw = Some n" and "extmin kw = Some lo"
    and "extmax kw = Some hi" and "transform_func kw = None"
    and "0 < n" and "lo < hi"
    and "ext = trans_func extern (bst_bin_centers bst)"
    and "edges = linspace lo hi (n + 1)"
  shows "(\<forall>x\<in>set ext. n_bins_of edges \<le> searchsorted_left edges x \<longrightarrow>
            compute_ratemap edges (length (bst_unit_ids bst)) bst ext = Inl ValueError \<and>
            TuningCurve1D_init gf bst extern kw = Inl ValueError) \<and>
         (\<exists>occ. compute_occupancy edges ext = Inr occ \<and>
            compute_occupancy edges (filter (\<lambda>x. lo \<le> x \<and> x \<le> hi) ext) = Inr occ) \<and>
         (hi \<in> set ext \<longrightarrow>
            compute_ratemap edges (length (bst_unit_ids bst)) bst ext = Inl ValueError \<and>
            TuningCurve1D_init gf bst extern kw = Inl ValueError) \<and>
         (\<forall>pre post. ext = pre @ hi # post \<longrightarrow>
            (\<exists>occ occ'. compute_occupancy edges ext = Inr occ \<and>
               compute_occupancy edges (pre @ post) = Inr occ' \<and>
               length occ = n \<and> occ ! (n - 1) = Suc (occ' ! (n - 1))))"
proof -
  from assms(7) have sorted: "sorted edges"
    unfolding assms(9) by (intro sorted_linspace) simp
  have nb: "n_bins_of edges = n"
    unfolding assms(9) by (rule n_bins_of_linspace)
  have len: "length edges = n + 1"
    unfolding assms(9) by (rule length_linspace)
  have hd: "hd edges = lo"
    unfolding assms(9) by (rule hd_linspace) simp
  have last: "last edges = hi"
    unfolding assms(9) using assms(6) by (rule last_linspace)
  have occ: "compute_occupancy edges ext =
      Inr (map (\<lambda>i. length (filter (in_bin edges i) ext)) [0..<length edges - 1])"
    by (simp add: compute_occupancy_def histogram_sorted [OF sorted])
  have raises: "compute_ratemap edges (length (bst_unit_ids bst)) bst ext = Inl ValueError \<and>
      TuningCurve1D_init gf bst extern kw = Inl ValueError"
    if "x \<in> set ext" and "n_bins_of edges \<le> searchsorted_left edges x" for x
  proof -
    from compute_ratemap_raises [OF sorted that]
    have rm: "compute_ratemap edges (length (bst_unit_ids bst)) bst ext = Inl ValueError" .
    then have "estimate gf edges (length (bst_unit_ids bst)) bst extern (transform_func kw)
        (case minbgrate kw of None \<Rightarrow> 0.01 | Some m \<Rightarrow> m) (sigma kw) (bw kw) = Inl ValueError"
      by (simp add: estimate_def occ assms(5) flip: assms(8))
    then have "TuningCurve1D_init gf bst extern kw = Inl ValueError"
      unfolding assms(9) by (simp only: TuningCurve1D_init_estimate [OF assms(1-4)] sum.case)
    with rm show ?thesis by simp
  qed
  have top: "n_bins_of edges \<le> searchsorted_left edges hi"
    unfolding nb unfolding assms(9) using searchsorted_left_linspace_stop [OF assms(7,6)] by simp
  have dropped: "compute_occupancy edges (filter (\<lambda>x. lo \<le> x \<and> x \<le> hi) ext) =
      compute_occupancy edges ext"
    using histogram_drops_out_of_range [OF sorted, of ext]
    by (simp add: compute_occupancy_def hd last)
  have counted: "\<exists>occ occ'. compute_occupancy edges ext = Inr occ \<and>
               compute_occupancy edges (pre @ post) = Inr occ' \<and>
               length occ = n \<and> occ ! (n - 1) = Suc (occ' ! (n - 1))"
    if "ext = pre @ hi # post" for pre post
  proof -
    from len assms(6) have "2 \<le> length edges" by simp
    from histogram_counts_last_edge [OF sorted this, of pre post] show ?thesis
      by (simp add: compute_occupancy_def last len that)
  qed
  have c1: "\<forall>x\<in>set ext. n_bins_of edges \<le> searchsorted_left edges x \<longrightarrow>
            compute_ratemap edges (length (bst_unit_ids bst)) bst ext = Inl ValueError \<and>
            TuningCurve1D_init gf bst extern kw = Inl ValueError"
  proof (intro ballI impI)
    fix x assume "x \<in> set ext" and "n_bins_of edges \<le> searchsorted_left edges x"
    then show "compute_ratemap edges (length (bst_unit_ids bst)) bst ext = Inl ValueError \<and>
            TuningCurve1D_init gf bst extern kw = Inl ValueError"
      by (rule raises)
  qed
  have c2: "\<exists>occ. compute_occupancy edges ext = Inr occ \<and>
            compute_occupancy edges (filter (\<lambda>x. lo \<le> x \<and> x \<le> hi) ext) = Inr occ"
    unfolding dropped occ by (rule exI, rule conjI) (rule refl)+
  have c3: "hi \<in> set ext \<longrightarrow>
            compute_ratemap edges (length (bst_unit_ids bst)) bst ext = Inl ValueError \<and>
            TuningCurve1D_init gf bst extern kw = Inl ValueError"
  proof
    assume "hi \<in> set ext"
    then show "compute_ratemap edges (length (bst_unit_ids bst)) bst ext = Inl ValueError \<and>
            TuningCurve1D_init gf bst extern kw = Inl ValueError"
      using top by (rule raises)
  qed
  have c4: "\<forall>pre post. ext = pre @ hi # post \<longrightarrow>
            (\<exists>occ occ'. compute_occupancy edges ext = Inr occ \<and>
               compute_occupancy edges (pre @ post) = Inr occ' \<and>
               length occ = n \<and> occ ! (n - 1) = Suc (occ' ! (n - 1)))"
  proof (intro allI impI)
    fix pre post assume "ext = pre @ hi # post"
    then show "\<exists>occ occ'. compute_occupancy edges ext = Inr occ \<and>
               compute_occupancy edges (pre @ post) = Inr occ' \<and>
               length occ = n \<and> occ ! (n - 1) = Suc (occ' ! (n - 1))"
      by (rule counted)
  qed
  from c1 c2 c3 c4 show ?thesis
    by (intro conjI)
qed

theorem ratemap_rejects_what_occupancy_counts_witness:
  "(\<forall>gf. TuningCurve1D_init gf example_bst (\<lambda>t. t / 2) example_kwargs = Inl ValueError) \<and>
   compute_occupancy (linspace 0 1 3) [0, 1 / 2, 1] = Inr [1, 2] \<and>
   compute_occupancy (linspace 0 1 3) [0, 1 / 2] = Inr [1, 1]"
proof -
  have ext: "[0, 1 / 2, 1] = trans_func (\<lambda>t. t / 2) (bst_bin_centers example_bst)"
    by (simp add: trans_func_def example_bst_def)
  have kw: "\<not> empty_arg example_kwargs" "n_extern example_kwargs = Some 2"
    "extmin example_kwargs = Some 0" "extmax example_kwargs = Some 1"
    "transform_func example_kwargs = None"
    by (simp_all add: example_kwargs_def default_kwargs_def)
  have n: "(0 :: nat) < 2" and range: "(0 :: real) < 1"
    by simp_all
  have edges: "linspace 0 1 (2 + 1) = linspace 0 1 (2 + 1)" ..
  have top: "(1 :: real) \<in> set [0, 1 / 2, 1]"
    by simp
  have "TuningCurve1D_init gf example_bst (\<lambda>t. t / 2) example_kwargs = Inl ValueError" for gf
    using top ratemap_rejects_what_occupancy_counts [OF kw n range ext edges,
      THEN conjunct2, THEN conjunct2, THEN conjunct1, of gf]
    by (simp only:)
  then have "\<forall>gf. TuningCurve1D_init gf example_bst (\<lambda>t. t / 2) example_kwargs = Inl ValueError"
    by (rule allI)
  moreover have "compute_occupancy (linspace 0 1 3) [0, 1 / 2, 1] = Inr [1, 2]"
    by code_simp
  moreover have "compute_occupancy (linspace 0 1 3) [0, 1 / 2] = Inr [1, 1]"
    by code_simp
  ultimately show ?thesis by (intro conjI)
qed

section \<open>The floor of the ratemap\<close>

subsection \<open>Before the filter\<close>

lemma enforce_minbgrate_floor:
  "\<forall>row\<in>set (enforce_minbgrate m rm). \<forall>x\<in>set row. m \<le> x"
  by (auto simp: enforce_minbgrate_def)

lemma enforce_minbgrate_shape:
  "length (enforce_minbgrate m rm) = length rm \<and>
   (\<forall>u<length rm. length (enforce_minbgrate m rm ! u) = length (rm ! u))"
  by (simp add: enforce_minbgrate_def)

lemma compute_occupancy_length:
  "compute_occupancy bs ext = Inr occ \<Longrightarrow> length occ = n_bins_of bs"
  by (auto simp: compute_occupancy_def histogram_def n_bins_of_def split: if_splits)

lemma normalize_firing_rate_by_occupancy_shape:
  assumes "normalize_firing_rate_by_occupancy nu occ rm = Inr out"
  shows "length out = nu \<and> (\<forall>row\<in>set out. length row = length occ)"
proof -
  from assms have len: "length rm = nu"
    and rows: "\<forall>row\<in>set rm. length row = length occ"
    and out: "out = map (\<lambda>(row, drow). map (\<lambda>(x, y). x / y) (zip row drow))
        (zip rm (replicate nu (map (\<lambda>c. if c = 0 then 1 else real c) occ)))"
    by (auto simp: normalize_firing_rate_by_occupancy_def Let_def list_all_iff split: if_splits)
  have "length row = length occ" if "row \<in> set out" for row
  proof -
    from that out obtain r d where "(r, d) \<in> set (zip rm (replicate nu (map (\<lambda>c. if c = 0 then 1 else real c) occ)))"
      and row: "row = map (\<lambda>(x, y). x / y) (zip r d)"
      by auto
    then have "r \<in> set rm" and "d \<in> set (replicate nu (map (\<lambda>c. if c = 0 then 1 else real c) occ))"
      by (auto dest: set_zip_leftD set_zip_rightD)
    with rows have "length r = length occ" "length d = length occ"
      by auto
    with row show ?thesis by simp
  qed
  with out len show ?thesis by simp
qed

text \<open>
  What a returning pipeline has computed: the floored ratemap, one row per unit and one
  entry per bin, every entry at least \<open>m\<close>; and its result is that ratemap when no
  smoothing is asked for, and otherwise what \<^verbatim>\<open>smooth\<close> returns on it. Nothing is
  applied to the ratemap after \<^verbatim>\<open>smooth\<close>.
\<close>

lemma estimate_Inr:
  assumes "estimate gf bs nu bst extern tf m sg bwidth = Inr (occ, rm)"
  obtains floored where "length occ = n_bins_of bs" and "length floored = nu"
    and "\<forall>row\<in>set floored. length row = n_bins_of bs \<and> (\<forall>x\<in>set row. m \<le> x)"
    and "case sg of None \<Rightarrow> rm = floored
         | Some s \<Rightarrow> if 0 < s then smooth gf bs nu (Some s) bwidth floored = Inr rm
                     else rm = floored"
proof -
  from assms obtain raw normalized where
    occ: "compute_occupancy bs (trans_func extern (bst_bin_centers bst)) = Inr occ"
    and norm: "normalize_firing_rate_by_occupancy nu occ raw = Inr normalized"
    and rm: "case sg of None \<Rightarrow> rm = enforce_minbgrate m normalized
         | Some s \<Rightarrow> if 0 < s
                     then smooth gf bs nu (Some s) bwidth (enforce_minbgrate m normalized) = Inr rm
                     else rm = enforce_minbgrate m normalized"
    by (auto simp: estimate_def Let_def split: option.splits sum.splits if_splits)
  from compute_occupancy_length [OF occ] have len_occ: "length occ = n_bins_of bs" .
  from normalize_firing_rate_by_occupancy_shape [OF norm] len_occ
  have shape: "length normalized = nu" "\<forall>row\<in>set normalized. length row = n_bins_of bs"
    by simp_all
  have len: "length (enforce_minbgrate m normalized) = nu"
    using shape(1) by (simp add: enforce_minbgrate_def)
  have floored: "\<forall>row\<in>set (enforce_minbgrate m normalized).
          length row = n_bins_of bs \<and> (\<forall>x\<in>set row. m \<le> x)"
    using shape(2) enforce_minbgrate_floor [of m normalized]
    by (auto simp: enforce_minbgrate_def)
  from len_occ len floored rm show ?thesis
    by (rule that)
qed

lemma estimate_floor_unsmoothed:
  assumes "estimate gf bs nu bst extern tf m sg bwidth = Inr (occ, rm)"
    and "sg = None \<or> (\<exists>s. sg = Some s \<and> s \<le> 0)"
  shows "length occ = n_bins_of bs \<and> length rm = nu \<and>
         (\<forall>row\<in>set rm. length row = n_bins_of bs \<and> (\<forall>x\<in>set row. m \<le> x))"
proof -
  from assms(1) obtain floored where "length occ = n_bins_of bs" and "length floored = nu"
    and "\<forall>row\<in>set floored. length row = n_bins_of bs \<and> (\<forall>x\<in>set row. m \<le> x)"
    and rm: "case sg of None \<Rightarrow> rm = floored
         | Some s \<Rightarrow> if 0 < s then smooth gf bs nu (Some s) bwidth floored = Inr rm
                     else rm = floored"
    by (rule estimate_Inr)
  moreover from rm assms(2) have "rm = floored"
    by (auto split: option.splits if_splits)
  ultimately show ?thesis by simp
qed

text \<open>The estimates have one row per unit when the filter returns as many rows as it is
  given (of the filter itself nothing is known).\<close>

lemma estimate_rows:
  assumes "estimate gf bs nu bst extern tf m sg bwidth = Inr (occ, rm)"
    and "\<And>sigmas trunc inp out. gf sigmas trunc inp = Inr out \<Longrightarrow> length out = length inp"
  shows "length rm = nu"
proof -
  from assms(1) obtain floored where len: "length floored = nu"
    and rm: "case sg of None \<Rightarrow> rm = floored
         | Some s \<Rightarrow> if 0 < s then smooth gf bs nu (Some s) bwidth floored = Inr rm
                     else rm = floored"
    by (rule estimate_Inr)
  show ?thesis
  proof (cases "rm = floored")
    case True
    with len show ?thesis by simp
  next
    case False
    with rm obtain s where "smooth gf bs nu (Some s) bwidth floored = Inr rm"
      by (auto split: option.splits if_splits)
    then obtain sigmas trunc where "gf sigmas trunc floored = Inr rm"
      by (auto simp: smooth_def Let_def split: if_splits)
    from assms(2) [OF this] len show ?thesis by simp
  qed
qed

subsection \<open>The constructor\<close>

text \<open>
  Every curve the constructor returns has \<^verbatim>\<open>n_bins\<close> equal to the number of bin edges
  minus one, which is \<^verbatim>\<open>n_extern\<close>, and one occupancy count per bin.
\<close>

lemma construction_n_bins:
  assumes "TuningCurve1D_init gf bst extern kw = Inr (Built c)"
  shows "n_bins c = length (bins c) - 1 \<and> n_extern kw = Some (n_bins c) \<and>
         length (occupancy c) = n_bins c"
proof -
  let ?m = "case minbgrate kw of None \<Rightarrow> 0.01 | Some m \<Rightarrow> m"
  from assms obtain n lo hi occ rm where n: "n_extern kw = Some n"
    and est: "estimate gf (linspace lo hi (n + 1)) (length (bst_unit_ids bst)) bst extern
                (transform_func kw) ?m (sigma kw) (bw kw) = Inr (occ, rm)"
    and c: "c = \<lparr>bins = linspace lo hi (n + 1), ratemap = rm, occupancy = occ,
                  unit_ids = bst_unit_ids bst, unit_labels = bst_unit_labels bst\<rparr>"
    by (auto simp: TuningCurve1D_init_def Let_def split: if_splits option.splits sum.splits)
  from est have "length occ = n_bins_of (linspace lo hi (n + 1))"
    by (rule estimate_Inr)
  with c n show ?thesis
    by (simp add: n_bins_def n_bins_of_def length_linspace)
qed

text \<open>
  Without smoothing (\<^verbatim>\<open>sigma\<close> not given, or not positive) the ratemap of the curve is
  the floored one: one row per unit, one entry per bin, every entry at least
  \<^verbatim>\<open>minbgrate\<close> (0.01 when none is given).
\<close>

lemma construction_floor_unsmoothed:
  assumes "TuningCurve1D_init gf bst extern kw = Inr (Built c)"
    and "sigma kw = None \<or> (\<exists>s. sigma kw = Some s \<and> s \<le> 0)"
  shows "length (ratemap c) = n_units c \<and>
         (\<forall>row\<in>set (ratemap c). length row = n_bins c \<and>
            (\<forall>x\<in>set row. (case minbgrate kw of None \<Rightarrow> 0.01 | Some m \<Rightarrow> m) \<le> x))"
proof -
  let ?m = "case minbgrate kw of None \<Rightarrow> 0.01 | Some m \<Rightarrow> m"
  from assms(1) obtain n lo hi occ rm where
    est: "estimate gf (linspace lo hi (n + 1)) (length (bst_unit_ids bst)) bst extern
                (transform_func kw) ?m (sigma kw) (bw kw) = Inr (occ, rm)"
    and c: "c = \<lparr>bins = linspace lo hi (n + 1), ratemap = rm, occupancy = occ,
                  unit_ids = bst_unit_ids bst, unit_labels = bst_unit_labels bst\<rparr>"
    by (auto simp: TuningCurve1D_init_def Let_def split: if_splits option.splits sum.splits)
  from estimate_floor_unsmoothed [OF est assms(2)] c show ?thesis
    by (simp add: n_bins_def n_units_def)
qed

text \<open>
  With smoothing, the ratemap of the curve is what the filter returns on the floored
  ratemap, whatever that is: the constructor applies the floor before it smooths
  (\<^verbatim>\<open>self._ratemap[self._ratemap < minbgrate] = minbgrate\<close>, then \<^verbatim>\<open>self.smooth(...)\<close>)
  and not again afterwards.
\<close>

lemma construction_smoothed:
  assumes "TuningCurve1D_init gf bst extern kw = Inr (Built c)"
    and "sigma kw = Some s" and "0 < s"
    and "m = (case minbgrate kw of None \<Rightarrow> 0.01 | Some m \<Rightarrow> m)"
  shows "\<exists>floored. length floored = n_units c \<and>
           (\<forall>row\<in>set floored. length row = n_bins c \<and> (\<forall>x\<in>set row. m \<le> x)) \<and>
           smooth gf (bins c) (n_units c) (Some s) (bw kw) floored = Inr (ratemap c)"
proof -
  from assms(1) obtain n lo hi occ rm where
    est: "estimate gf (linspace lo hi (n + 1)) (length (bst_unit_ids bst)) bst extern
                (transform_func kw) m (sigma kw) (bw kw) = Inr (occ, rm)"
    and c: "c = \<lparr>bins = linspace lo hi (n + 1), ratemap = rm, occupancy = occ,
                  unit_ids = bst_unit_ids bst, unit_labels = bst_unit_labels bst\<rparr>"
    unfolding assms(4)
    by (auto simp: TuningCurve1D_init_def Let_def split: if_splits option.splits sum.splits)
  from est obtain floored where "length floored = length (bst_unit_ids bst)"
    and "\<forall>row\<in>set floored. length row = n_bins_of (linspace lo hi (n + 1)) \<and>
           (\<forall>x\<in>set row. m \<le> x)"
    and "case sigma kw of None \<Rightarrow> rm = floored
         | Some s \<Rightarrow> if 0 < s
             then smooth gf (linspace lo hi (n + 1)) (length (bst_unit_ids bst)) (Some s)
                    (bw kw) floored = Inr rm
             else rm = floored"
    by (rule estimate_Inr)
  with assms(2,3) c show ?thesis
    by (intro exI [of _ floored]) (simp add: n_bins_def n_units_def)
qed


section \<open>Directional reconciliation\<close>

subsection \<open>What \<^verbatim>\<open>restrict_units\<close> returns when it returns\<close>

lemma argwhere_Positions:
  "argwhere_squeeze_tolist msk = Positions idx \<Longrightarrow> idx = filter (\<lambda>i. msk ! i) [0..<length msk]"
  by (auto simp: argwhere_squeeze_tolist_def split: list.splits)

lemma set_of_selected_Inr:
  assumes "set_of_selected ids (argwhere_squeeze_tolist (map P rm)) = Inr K"
  shows "K = {ids ! i | i. i < length rm \<and> P (rm ! i)} \<and> finite K \<and>
         (\<forall>i<length rm. P (rm ! i) \<longrightarrow> i < length ids)"
proof -
  from assms obtain idx where pos: "argwhere_squeeze_tolist (map P rm) = Positions idx"
    and sel: "take_rows ids idx = Inr (map (\<lambda>i. ids ! i) idx)" and K: "K = set (map (\<lambda>i. ids ! i) idx)"
    and inb: "\<forall>i\<in>set idx. i < length ids"
    by (auto simp: set_of_selected_def take_rows_def list_all_iff
        split: positions.splits sum.splits if_splits)
  have "filter (\<lambda>i. map P rm ! i) [0..<length rm] = filter (\<lambda>i. P (rm ! i)) [0..<length rm]"
    by (rule filter_cong) simp_all
  with argwhere_Positions [OF pos] have idx: "idx = filter (\<lambda>i. P (rm ! i)) [0..<length rm]"
    by simp
  then have mem: "i \<in> set idx \<longleftrightarrow> i < length rm \<and> P (rm ! i)" for i
    by auto
  have "K = {ids ! i | i. i < length rm \<and> P (rm ! i)}"
    unfolding K using mem by auto
  moreover have "finite K"
    unfolding K by simp
  moreover have "\<forall>i<length rm. P (rm ! i) \<longrightarrow> i < length ids"
    using inb mem by blast
  ultimately show ?thesis by simp
qed

lemma restrict_units_Inr:
  assumes "restrict_units ids min_peak max_avg unimod rm = Inr S"
    and "distinct ids" and "length rm \<le> length ids"
  shows "S = {ids ! i | i. i < length rm \<and> retained min_peak max_avg (rm ! i)} \<and> finite S"
proof -
  from assms(1) obtain K1 K2 where
    k1: "set_of_selected ids
           (argwhere_squeeze_tolist (map (\<lambda>row. Max (set row) > min_peak) rm)) = Inr K1"
    and k2: "set_of_selected ids
           (argwhere_squeeze_tolist (map (\<lambda>row. mean row < max_avg) rm)) = Inr K2"
    and S: "S = K1 \<inter> K2"
    by (auto simp: restrict_units_def split: if_splits sum.splits)
  from set_of_selected_Inr [OF k1]
  have K1: "K1 = {ids ! i | i. i < length rm \<and> Max (set (rm ! i)) > min_peak}" and "finite K1"
    by simp_all
  from set_of_selected_Inr [OF k2]
  have K2: "K2 = {ids ! i | i. i < length rm \<and> mean (rm ! i) < max_avg}"
    by simp
  have "K1 \<inter> K2 = {ids ! i | i. i < length rm \<and> retained min_peak max_avg (rm ! i)}"
  proof (intro set_eqI iffI)
    fix x assume "x \<in> K1 \<inter> K2"
    then obtain i j where i: "i < length rm" "Max (set (rm ! i)) > min_peak" "x = ids ! i"
      and j: "j < length rm" "mean (rm ! j) < max_avg" "x = ids ! j"
      unfolding K1 K2 by auto
    with assms(2,3) have "i = j"
      by (simp add: nth_eq_iff_index_eq)
    with i j show "x \<in> {ids ! i | i. i < length rm \<and> retained min_peak max_avg (rm ! i)}"
      by (auto simp: retained_def)
  next
    fix x assume "x \<in> {ids ! i | i. i < length rm \<and> retained min_peak max_avg (rm ! i)}"
    then show "x \<in> K1 \<inter> K2"
      unfolding K1 K2 by (auto simp: retained_def)
  qed
  with S \<open>finite K1\<close> show ?thesis by simp
qed

lemma replace_rows_Inr:
  assumes "replace_rows ids src us rm = Inr rm'" and "distinct ids"
  shows "length rm' = length rm \<and>
         (\<forall>i. i < length rm \<and> i < length ids \<longrightarrow>
            rm' ! i = (if ids ! i \<in> set us then src ! i else rm ! i))"
  using assms(1)
proof (induction us arbitrary: rm)
  case Nil
  then show ?case by simp
next
  case (Cons u rest)
  from Cons.prems obtain k where k: "list_index ids u = Inr k"
    and kb: "k < length rm" "k < length src"
    and rec: "replace_rows ids src rest (rm[k := src ! k]) = Inr rm'"
    by (auto split: sum.splits if_splits)
  from list_index_Inr [OF k] have kid: "k < length ids" "ids ! k = u"
    by simp_all
  from Cons.IH [OF rec] have len: "length rm' = length rm"
    and ent: "\<And>i. i < length rm \<Longrightarrow> i < length ids \<Longrightarrow>
        rm' ! i = (if ids ! i \<in> set rest then src ! i else rm[k := src ! k] ! i)"
    by simp_all
  have "rm' ! i = (if ids ! i \<in> set (u # rest) then src ! i else rm ! i)"
    if i: "i < length rm" "i < length ids" for i
  proof (cases "i = k")
    case True
    with ent [OF i] kid kb show ?thesis by simp
  next
    case False
    with assms(2) i kid have "ids ! i \<noteq> u"
      by (auto simp: nth_eq_iff_index_eq)
    with ent [OF i] False show ?thesis by simp
  qed
  with len show ?case by simp
qed

text \<open>What a returning construction has computed on its way.\<close>

lemma directional_init_Inr:
  assumes "DirectionalTuningCurve1D_init gf bst_l2r bst_r2l bst_combined extern kw = Inr (Built c)"
    and "mp = (case min_peakfiringrate_arg kw of None \<Rightarrow> 1.5 | Some m \<Rightarrow> m)"
    and "ma = (case max_avgfiringrate_arg kw of None \<Rightarrow> 10 | Some m \<Rightarrow> m)"
    and "mbg = (case minbgrate kw of None \<Rightarrow> 0.01 | Some m \<Rightarrow> m)"
  obtains n lo hi occ1 rm1 occ2 rm2 occ rm S1 S2 a b where
    "estimate gf (linspace lo hi (n + 1)) (length (bst_unit_ids bst_combined)) bst_l2r extern
      (transform_func kw) mbg (sigma kw) (bw kw) = Inr (occ1, rm1)"
    and "estimate gf (linspace lo hi (n + 1)) (length (bst_unit_ids bst_combined)) bst_r2l extern
      (transform_func kw) mbg (sigma kw) (bw kw) = Inr (occ2, rm2)"
    and "estimate gf (linspace lo hi (n + 1)) (length (bst_unit_ids bst_combined)) bst_combined extern
      (transform_func kw) mbg (sigma kw) (bw kw) = Inr (occ, rm)"
    and "restrict_units (bst_unit_ids bst_combined) mp ma (unimodal_arg kw) rm1 = Inr S1"
    and "restrict_units (bst_unit_ids bst_combined) mp ma (unimodal_arg kw) rm2 = Inr S2"
    and "replace_rows (bst_unit_ids bst_combined) rm1
      (sorted_list_of_set (S1 - set (sorted_list_of_set (S2 \<inter> S1)))) rm = Inr a"
    and "replace_rows (bst_unit_ids bst_combined) rm2
      (sorted_list_of_set (S2 - set (sorted_list_of_set (S2 \<inter> S1)))) a = Inr b"
    and "c = \<lparr>bins = linspace lo hi (n + 1), ratemap = b, occupancy = occ,
          unit_ids = bst_unit_ids bst_combined, unit_labels = bst_unit_labels bst_combined,
          min_peakfiringrate = mp, max_avgfiringrate = ma, unimodal = unimodal_arg kw,
          unit_ids_l2r = sorted_list_of_set (S1 - set (sorted_list_of_set (S2 \<inter> S1))),
          unit_ids_r2l = sorted_list_of_set (S2 - set (sorted_list_of_set (S2 \<inter> S1)))\<rparr>"
  using assms(1)
  unfolding DirectionalTuningCurve1D_init_def Let_def assms(2-4) [symmetric]
  by (auto split: if_splits option.splits sum.splits prod.splits)

text \<open>
  The rows of a curve that the directional constructor returns, over distinct unit ids and
  with a filter that returns as many rows as it is given: the three passes have returned
  their estimates; the row of a unit retained for left-to-right only is its left-to-right
  estimate, the row of a unit retained for right-to-left only is its right-to-left
  estimate, and the row of a unit retained for both or for neither is its combined
  estimate; \<^verbatim>\<open>unit_ids_l2r\<close> holds exactly the ids retained for left-to-right only,
  \<^verbatim>\<open>unit_ids_r2l\<close> exactly those retained for right-to-left only. This says nothing of
  the constructions that return no curve.
\<close>

lemma directional_rows_of_a_returned_curve:
  assumes "DirectionalTuningCurve1D_init gf bst_l2r bst_r2l bst_combined extern kw = Inr (Built c)"
    and "distinct (bst_unit_ids bst_combined)"
    and "est = (\<lambda>bst. estimate gf (bins c) (n_units c) bst extern (transform_func kw)
                   (case minbgrate kw of None \<Rightarrow> 0.01 | Some m \<Rightarrow> m) (sigma kw) (bw kw))"
    and "keep = retained (min_peakfiringrate c) (max_avgfiringrate c)"
    and "\<And>sigmas trunc inp out. gf sigmas trunc inp = Inr out \<Longrightarrow> length out = length inp"
  shows "\<exists>occ_l2r ratemap_l2r occ_r2l ratemap_r2l ratemap_combined.
     est bst_l2r = Inr (occ_l2r, ratemap_l2r) \<and>
     est bst_r2l = Inr (occ_r2l, ratemap_r2l) \<and>
     est bst_combined = Inr (occupancy c, ratemap_combined) \<and>
     unit_ids c = bst_unit_ids bst_combined \<and>
     length (ratemap c) = n_units c \<and>
     (\<forall>i<n_units c.
        ratemap c ! i =
          (if keep (ratemap_l2r ! i) \<and> \<not> keep (ratemap_r2l ! i) then ratemap_l2r ! i
           else if keep (ratemap_r2l ! i) \<and> \<not> keep (ratemap_l2r ! i) then ratemap_r2l ! i
           else ratemap_combined ! i)) \<and>
     set (unit_ids_l2r c) =
       {unit_ids c ! i | i. i < n_units c \<and> keep (ratemap_l2r ! i) \<and> \<not> keep (ratemap_r2l ! i)} \<and>
     set (unit_ids_r2l c) =
       {unit_ids c ! i | i. i < n_units c \<and> keep (ratemap_r2l ! i) \<and> \<not> keep (ratemap_l2r ! i)}"
proof -
  let ?ids = "bst_unit_ids bst_combined"
  let ?n = "length ?ids"
  let ?mp = "case min_peakfiringrate_arg kw of None \<Rightarrow> 1.5 | Some m \<Rightarrow> m"
  let ?ma = "case max_avgfiringrate_arg kw of None \<Rightarrow> 10 | Some m \<Rightarrow> m"
  let ?mbg = "case minbgrate kw of None \<Rightarrow> 0.01 | Some m \<Rightarrow> m"
  obtain n lo hi occ1 rm1 occ2 rm2 occ rm S1 S2 a b where
    e1: "estimate gf (linspace lo hi (n + 1)) ?n bst_l2r extern (transform_func kw) ?mbg
           (sigma kw) (bw kw) = Inr (occ1, rm1)"
    and e2: "estimate gf (linspace lo hi (n + 1)) ?n bst_r2l extern (transform_func kw) ?mbg
           (sigma kw) (bw kw) = Inr (occ2, rm2)"
    and e3: "estimate gf (linspace lo hi (n + 1)) ?n bst_combined extern (transform_func kw) ?mbg
           (sigma kw) (bw kw) = Inr (occ, rm)"
    and r1: "restrict_units ?ids ?mp ?ma (unimodal_arg kw) rm1 = Inr S1"
    and r2: "restrict_units ?ids ?mp ?ma (unimodal_arg kw) rm2 = Inr S2"
    and p1: "replace_rows ?ids rm1
               (sorted_list_of_set (S1 - set (sorted_list_of_set (S2 \<inter> S1)))) rm = Inr a"
    and p2: "replace_rows ?ids rm2
               (sorted_list_of_set (S2 - set (sorted_list_of_set (S2 \<inter> S1)))) a = Inr b"
    and c: "c = \<lparr>bins = linspace lo hi (n + 1), ratemap = b, occupancy = occ,
                 unit_ids = ?ids, unit_labels = bst_unit_labels bst_combined,
                 min_peakfiringrate = ?mp, max_avgfiringrate = ?ma,
                 unimodal = unimodal_arg kw,
                 unit_ids_l2r = sorted_list_of_set (S1 - set (sorted_list_of_set (S2 \<inter> S1))),
                 unit_ids_r2l = sorted_list_of_set (S2 - set (sorted_list_of_set (S2 \<inter> S1)))\<rparr>"
    by (rule directional_init_Inr [OF assms(1) refl refl refl])
  from estimate_rows [OF e1 assms(5)] have len1: "length rm1 = ?n" .
  from estimate_rows [OF e2 assms(5)] have len2: "length rm2 = ?n" .
  from estimate_rows [OF e3 assms(5)] have len: "length rm = ?n" .
  have keep: "keep = retained ?mp ?ma"
    by (simp add: assms(4) c)
  from restrict_units_Inr [OF r1 assms(2)] len1
  have S1: "S1 = {?ids ! i | i. i < ?n \<and> keep (rm1 ! i)}" and fin1: "finite S1"
    by (simp_all add: keep)
  from restrict_units_Inr [OF r2 assms(2)] len2
  have S2: "S2 = {?ids ! i | i. i < ?n \<and> keep (rm2 ! i)}" and fin2: "finite S2"
    by (simp_all add: keep)
  have in1: "?ids ! i \<in> S1 \<longleftrightarrow> keep (rm1 ! i)" if "i < ?n" for i
    unfolding S1 using that assms(2) by (auto simp: nth_eq_iff_index_eq)
  have in2: "?ids ! i \<in> S2 \<longleftrightarrow> keep (rm2 ! i)" if "i < ?n" for i
    unfolding S2 using that assms(2) by (auto simp: nth_eq_iff_index_eq)
  have only1: "set (sorted_list_of_set (S1 - set (sorted_list_of_set (S2 \<inter> S1)))) = S1 - S2"
    using fin1 fin2 by auto
  have only2: "set (sorted_list_of_set (S2 - set (sorted_list_of_set (S2 \<inter> S1)))) = S2 - S1"
    using fin1 fin2 by auto
  from replace_rows_Inr [OF p1 assms(2)] have lena: "length a = ?n"
    and a: "\<And>i. i < ?n \<Longrightarrow> a ! i = (if ?ids ! i \<in> S1 - S2 then rm1 ! i else rm ! i)"
    unfolding only1 using len by simp_all
  from replace_rows_Inr [OF p2 assms(2)] have lenb: "length b = ?n"
    and b: "\<And>i. i < ?n \<Longrightarrow> b ! i = (if ?ids ! i \<in> S2 - S1 then rm2 ! i else a ! i)"
    unfolding only2 using lena by simp_all
  have rows: "\<forall>i<n_units c. ratemap c ! i =
          (if keep (rm1 ! i) \<and> \<not> keep (rm2 ! i) then rm1 ! i
           else if keep (rm2 ! i) \<and> \<not> keep (rm1 ! i) then rm2 ! i
           else rm ! i)"
  proof (intro allI impI)
    fix i assume "i < n_units c"
    then have i: "i < ?n" by (simp add: c n_units_def)
    from a [OF i] b [OF i] in1 [OF i] in2 [OF i]
    show "ratemap c ! i =
          (if keep (rm1 ! i) \<and> \<not> keep (rm2 ! i) then rm1 ! i
           else if keep (rm2 ! i) \<and> \<not> keep (rm1 ! i) then rm2 ! i
           else rm ! i)"
      by (simp add: c)
  qed
  have l2r: "set (unit_ids_l2r c) =
       {unit_ids c ! i | i. i < n_units c \<and> keep (rm1 ! i) \<and> \<not> keep (rm2 ! i)}"
  proof -
    have "S1 - S2 = {?ids ! i | i. i < ?n \<and> keep (rm1 ! i) \<and> \<not> keep (rm2 ! i)}"
      using in2 unfolding S1 by auto
    with only1 show ?thesis by (simp add: c n_units_def)
  qed
  have r2l: "set (unit_ids_r2l c) =
       {unit_ids c ! i | i. i < n_units c \<and> keep (rm2 ! i) \<and> \<not> keep (rm1 ! i)}"
  proof -
    have "S2 - S1 = {?ids ! i | i. i < ?n \<and> keep (rm2 ! i) \<and> \<not> keep (rm1 ! i)}"
      using in1 unfolding S2 by auto
    with only2 show ?thesis by (simp add: c n_units_def)
  qed
  have ests: "est bst_l2r = Inr (occ1, rm1)" "est bst_r2l = Inr (occ2, rm2)"
    "est bst_combined = Inr (occupancy c, rm)"
    using e1 e2 e3 by (simp_all add: assms(3) c n_units_def)
  have "unit_ids c = ?ids" "length (ratemap c) = n_units c"
    using lenb by (simp_all add: c n_units_def)
  with ests rows l2r r2l show ?thesis
    by blast
qed

subsection \<open>A construction that returns\<close>

text \<open>A construction over four units: the first is retained for left-to-right only, the
  second for both directions, the third for right-to-left only, the fourth for neither.
  Two units pass each threshold in each direction.\<close>

lemma estimate_unsmoothed:
  assumes "compute_occupancy bs (trans_func extern (bst_bin_centers bst)) = Inr occ"
    and "compute_ratemap bs nu bst (trans_func extern (bst_bin_centers bst)) = Inr raw"
    and "normalize_firing_rate_by_occupancy nu occ raw = Inr normalized"
    and "enforce_minbgrate m normalized = floored"
  shows "estimate gf bs nu bst extern None m None bwidth = Inr (occ, floored)"
  using assms by (simp add: estimate_def)

lemma example_estimate_l2r:
  "estimate gf (linspace 0 1 3) 4 example_bst_l2r (\<lambda>t. t / 4) None (1 / 100) None None =
     Inr ([2, 1], [[1 / 100, 4], [1 / 100, 4], [1 / 100, 1 / 100], [1 / 100, 1 / 100]])"
proof (rule estimate_unsmoothed)
  show "compute_occupancy (linspace 0 1 3)
      (trans_func (\<lambda>t. t / 4) (bst_bin_centers example_bst_l2r)) = Inr [2, 1]"
    by code_simp
  show "compute_ratemap (linspace 0 1 3) 4 example_bst_l2r
      (trans_func (\<lambda>t. t / 4) (bst_bin_centers example_bst_l2r)) =
      Inr [[0, 4], [0, 4], [0, 0], [0, 0]]"
    by code_simp
  show "normalize_firing_rate_by_occupancy 4 [2, 1] [[0, 4], [0, 4], [0, 0], [0, 0]] =
      Inr [[0, 4], [0, 4], [0, 0], [0, 0]]"
    by code_simp
  show "enforce_minbgrate (1 / 100) [[0, 4], [0, 4], [0, 0], [0, 0]] =
      [[1 / 100, 4], [1 / 100, 4], [1 / 100, 1 / 100], [1 / 100, 1 / 100]]"
    by code_simp
qed

lemma example_estimate_r2l:
  "estimate gf (linspace 0 1 3) 4 example_bst_r2l (\<lambda>t. t / 4) None (1 / 100) None None =
     Inr ([2, 1], [[1 / 100, 1 / 100], [1 / 100, 4], [1 / 100, 4], [1 / 100, 1 / 100]])"
proof (rule estimate_unsmoothed)
  show "compute_occupancy (linspace 0 1 3)
      (trans_func (\<lambda>t. t / 4) (bst_bin_centers example_bst_r2l)) = Inr [2, 1]"
    by code_simp
  show "compute_ratemap (linspace 0 1 3) 4 example_bst_r2l
      (trans_func (\<lambda>t. t / 4) (bst_bin_centers example_bst_r2l)) =
      Inr [[0, 0], [0, 4], [0, 4], [0, 0]]"
    by code_simp
  show "normalize_firing_rate_by_occupancy 4 [2, 1] [[0, 0], [0, 4], [0, 4], [0, 0]] =
      Inr [[0, 0], [0, 4], [0, 4], [0, 0]]"
    by code_simp
  show "enforce_minbgrate (1 / 100) [[0, 0], [0, 4], [0, 4], [0, 0]] =
      [[1 / 100, 1 / 100], [1 / 100, 4], [1 / 100, 4], [1 / 100, 1 / 100]]"
    by code_simp
qed

lemma example_estimate_combined:
  "estimate gf (linspace 0 1 3) 4 example_bst_combined (\<lambda>t. t / 4) None (1 / 100) None None =
     Inr ([2, 1], [[1 / 100, 2], [1 / 100, 2], [1 / 100, 2], [1 / 100, 1 / 100]])"
proof (rule estimate_unsmoothed)
  show "compute_occupancy (linspace 0 1 3)
      (trans_func (\<lambda>t. t / 4) (bst_bin_centers example_bst_combined)) = Inr [2, 1]"
    by code_simp
  show "compute_ratemap (linspace 0 1 3) 4 example_bst_combined
      (trans_func (\<lambda>t. t / 4) (bst_bin_centers example_bst_combined)) =
      Inr [[0, 2], [0, 2], [0, 2], [0, 0]]"
    by code_simp
  show "normalize_firing_rate_by_occupancy 4 [2, 1] [[0, 2], [0, 2], [0, 2], [0, 0]] =
      Inr [[0, 2], [0, 2], [0, 2], [0, 0]]"
    by code_simp
  show "enforce_minbgrate (1 / 100) [[0, 2], [0, 2], [0, 2], [0, 0]] =
      [[1 / 100, 2], [1 / 100, 2], [1 / 100, 2], [1 / 100, 1 / 100]]"
    by code_simp
qed

lemma example_restrict_l2r:
  "restrict_units [7, 9, 4, 2] (3 / 2) 10 False
     [[1 / 100, 4], [1 / 100, 4], [1 / 100, 1 / 100], [1 / 100, 1 / 100]] = Inr {7, 9}"
  by code_simp

lemma example_restrict_r2l:
  "restrict_units [7, 9, 4, 2] (3 / 2) 10 False
     [[1 / 100, 1 / 100], [1 / 100, 4], [1 / 100, 4], [1 / 100, 1 / 100]] = Inr {9, 4}"
  by code_simp

lemma example_only_l2r: "sorted_list_of_set ({7, 9} - set (sorted_list_of_set ({9, 4} \<inter> {7, 9 :: int}))) = [7]"
  by code_simp

lemma example_only_r2l: "sorted_list_of_set ({9, 4} - set (sorted_list_of_set ({9, 4} \<inter> {7, 9 :: int}))) = [4]"
  by code_simp

lemma example_replace_l2r:
  "replace_rows [7, 9, 4, 2]
     [[1 / 100, 4], [1 / 100, 4], [1 / 100, 1 / 100], [1 / 100, 1 / 100]] [7]
     [[1 / 100, 2], [1 / 100, 2], [1 / 100, 2], [1 / 100, 1 / 100]] =
   Inr [[1 / 100, 4], [1 / 100, 2], [1 / 100, 2], [1 / 100, 1 / 100]]"
  by code_simp

lemma example_replace_r2l:
  "replace_rows [7, 9, 4, 2]
     [[1 / 100, 1 / 100], [1 / 100, 4], [1 / 100, 4], [1 / 100, 1 / 100]] [4]
     [[1 / 100, 4], [1 / 100, 2], [1 / 100, 2], [1 / 100, 1 / 100]] =
   Inr [[1 / 100, 4], [1 / 100, 2], [1 / 100, 4], [1 / 100, 1 / 100]]"
  by code_simp

lemma example_directional_init:
  "DirectionalTuningCurve1D_init gf example_bst_l2r example_bst_r2l example_bst_combined
     (\<lambda>t. t / 4) example_directional_kwargs =
   Inr (Built \<lparr>bins = linspace 0 1 3,
      ratemap = [[1 / 100, 4], [1 / 100, 2], [1 / 100, 4], [1 / 100, 1 / 100]],
      occupancy = [2, 1], unit_ids = [7, 9, 4, 2], unit_labels = [''a'', ''b'', ''c'', ''d''],
      min_peakfiringrate = 3 / 2, max_avgfiringrate = 10, unimodal = False,
      unit_ids_l2r = [7], unit_ids_r2l = [4]\<rparr>)"
proof -
  have ids: "bst_unit_ids example_bst_combined = [7, 9, 4, 2]"
    "bst_unit_labels example_bst_combined = [''a'', ''b'', ''c'', ''d'']"
    by (simp_all add: example_bst_combined_def)
  have three: "(2 :: nat) + 1 = 3" "length [7, 9, 4, 2 :: int] = 4"
    "(15 :: real) / 10 = 3 / 2" "(1 :: real) / 10\<^sup>2 = 1 / 100"
    by simp_all
  show ?thesis
    unfolding DirectionalTuningCurve1D_init_def example_directional_kwargs_def
    by (simp only: directional_kwargs.simps kwargs.simps if_False option.case Let_def
        prod.case ids three example_estimate_l2r example_estimate_r2l
        example_estimate_combined sum.case example_restrict_l2r example_restrict_r2l
        example_only_l2r example_only_r2l example_replace_l2r example_replace_r2l)
qed

subsection \<open>A construction that raises\<close>

lemma example_abc_estimate_l2r:
  "estimate gf (linspace 0 1 3) 3 example_abc_l2r (\<lambda>t. t / 4) None (1 / 100) None None =
     Inr ([2, 1], [[1 / 100, 4], [1 / 100, 4], [1 / 100, 1 / 100]])"
proof (rule estimate_unsmoothed)
  show "compute_occupancy (linspace 0 1 3)
      (trans_func (\<lambda>t. t / 4) (bst_bin_centers example_abc_l2r)) = Inr [2, 1]"
    by code_simp
  show "compute_ratemap (linspace 0 1 3) 3 example_abc_l2r
      (trans_func (\<lambda>t. t / 4) (bst_bin_centers example_abc_l2r)) =
      Inr [[0, 4], [0, 4], [0, 0]]"
    by code_simp
  show "normalize_firing_rate_by_occupancy 3 [2, 1] [[0, 4], [0, 4], [0, 0]] =
      Inr [[0, 4], [0, 4], [0, 0]]"
    by code_simp
  show "enforce_minbgrate (1 / 100) [[0, 4], [0, 4], [0, 0]] =
      [[1 / 100, 4], [1 / 100, 4], [1 / 100, 1 / 100]]"
    by code_simp
qed

lemma example_abc_estimate_r2l:
  "estimate gf (linspace 0 1 3) 3 example_abc_r2l (\<lambda>t. t / 4) None (1 / 100) None None =
     Inr ([2, 1], [[1 / 100, 1 / 100], [1 / 100, 4], [1 / 100, 1 / 100]])"
proof (rule estimate_unsmoothed)
  show "compute_occupancy (linspace 0 1 3)
      (trans_func (\<lambda>t. t / 4) (bst_bin_centers example_abc_r2l)) = Inr [2, 1]"
    by code_simp
  show "compute_ratemap (linspace 0 1 3) 3 example_abc_r2l
      (trans_func (\<lambda>t. t / 4) (bst_bin_centers example_abc_r2l)) =
      Inr [[0, 0], [0, 4], [0, 0]]"
    by code_simp
  show "normalize_firing_rate_by_occupancy 3 [2, 1] [[0, 0], [0, 4], [0, 0]] =
      Inr [[0, 0], [0, 4], [0, 0]]"
    by code_simp
  show "enforce_minbgrate (1 / 100) [[0, 0], [0, 4], [0, 0]] =
      [[1 / 100, 1 / 100], [1 / 100, 4], [1 / 100, 1 / 100]]"
    by code_simp
qed

lemma example_abc_estimate_combined:
  "estimate gf (linspace 0 1 3) 3 example_abc_combined (\<lambda>t. t / 4) None (1 / 100) None None =
     Inr ([2, 1], [[1 / 100, 2], [1 / 100, 4], [1 / 100, 1 / 100]])"
proof (rule estimate_unsmoothed)
  show "compute_occupancy (linspace 0 1 3)
      (trans_func (\<lambda>t. t / 4) (bst_bin_centers example_abc_combined)) = Inr [2, 1]"
    by code_simp
  show "compute_ratemap (linspace 0 1 3) 3 example_abc_combined
      (trans_func (\<lambda>t. t / 4) (bst_bin_centers example_abc_combined)) =
      Inr [[0, 2], [0, 4], [0, 0]]"
    by code_simp
  show "normalize_firing_rate_by_occupancy 3 [2, 1] [[0, 2], [0, 4], [0, 0]] =
      Inr [[0, 2], [0, 4], [0, 0]]"
    by code_simp
  show "enforce_minbgrate (1 / 100) [[0, 2], [0, 4], [0, 0]] =
      [[1 / 100, 2], [1 / 100, 4], [1 / 100, 1 / 100]]"
    by code_simp
qed

lemma example_abc_restrict_l2r:
  "restrict_units [7, 9, 4] (3 / 2) 10 False
     [[1 / 100, 4], [1 / 100, 4], [1 / 100, 1 / 100]] = Inr {7, 9}"
  by code_simp

lemma example_abc_restrict_r2l:
  "restrict_units [7, 9, 4] (3 / 2) 10 False
     [[1 / 100, 1 / 100], [1 / 100, 4], [1 / 100, 1 / 100]] = Inl TypeError"
  by code_simp

lemma example_abc_retained:
  "map (retained (3 / 2) 10) [[1 / 100, 4], [1 / 100, 4], [1 / 100, 1 / 100]] =
     [True, True, False]"
  "map (retained (3 / 2) 10) [[1 / 100, 1 / 100], [1 / 100, 4], [1 / 100, 1 / 100]] =
     [False, True, False]"
  by (simp_all add: retained_def mean_def)

text \<open>
  Claim C2: the code does not build the curve of the specification's own scenario. Of
  three units, \<open>7\<close> passes the two thresholds in the left-to-right pass only, \<open>9\<close> in both
  passes and \<open>4\<close> in neither; the three estimates are computed, and so is the
  left-to-right set of retained units. In the right-to-left pass one unit alone has its
  peak rate above \<^verbatim>\<open>min_peakfiringrate\<close>, so \<^verbatim>\<open>restrict_units\<close> raises a TypeError (the
  defect of claim C5) and the constructor raises with it: no row is replaced and no
  \<^verbatim>\<open>unit_ids_l2r\<close> is set.
\<close>

theorem directional_construction_raises:
  "DirectionalTuningCurve1D_init gf example_abc_l2r example_abc_r2l example_abc_combined
     (\<lambda>t. t / 4) example_directional_kwargs = Inl TypeError \<and>
   estimate gf (linspace 0 1 3) 3 example_abc_l2r (\<lambda>t. t / 4) None (1 / 100) None None =
     Inr ([2, 1], [[1 / 100, 4], [1 / 100, 4], [1 / 100, 1 / 100]]) \<and>
   estimate gf (linspace 0 1 3) 3 example_abc_r2l (\<lambda>t. t / 4) None (1 / 100) None None =
     Inr ([2, 1], [[1 / 100, 1 / 100], [1 / 100, 4], [1 / 100, 1 / 100]]) \<and>
   map (retained (3 / 2) 10) [[1 / 100, 4], [1 / 100, 4], [1 / 100, 1 / 100]] =
     [True, True, False] \<and>
   map (retained (3 / 2) 10) [[1 / 100, 1 / 100], [1 / 100, 4], [1 / 100, 1 / 100]] =
     [False, True, False] \<and>
   restrict_units [7, 9, 4] (3 / 2) 10 False
     [[1 / 100, 4], [1 / 100, 4], [1 / 100, 1 / 100]] = Inr {7, 9} \<and>
   restrict_units [7, 9, 4] (3 / 2) 10 False
     [[1 / 100, 1 / 100], [1 / 100, 4], [1 / 100, 1 / 100]] = Inl TypeError"
proof -
  have ids: "bst_unit_ids example_abc_combined = [7, 9, 4]"
    by (simp add: example_abc_combined_def)
  have three: "(2 :: nat) + 1 = 3" "length [7, 9, 4 :: int] = 3"
    "(15 :: real) / 10 = 3 / 2" "(1 :: real) / 10\<^sup>2 = 1 / 100"
    by simp_all
  have "DirectionalTuningCurve1D_init gf example_abc_l2r example_abc_r2l example_abc_combined
     (\<lambda>t. t / 4) example_directional_kwargs = Inl TypeError"
    unfolding DirectionalTuningCurve1D_init_def example_directional_kwargs_def
    by (simp only: directional_kwargs.simps kwargs.simps if_False option.case Let_def
        prod.case ids three example_abc_estimate_l2r example_abc_estimate_r2l
        example_abc_estimate_combined sum.case example_abc_restrict_l2r
        example_abc_restrict_r2l)
  with example_abc_estimate_l2r [of gf] example_abc_estimate_r2l [of gf] example_abc_retained
    example_abc_restrict_l2r example_abc_restrict_r2l
  show ?thesis
    by (intro conjI)
qed

end
